theory Spec2Isabelle
  imports Complex_Main "HOL-Library.Word"
begin

section \<open>Data model of the capture pipeline\<close>

text \<open>
  Machine types of the source: \<open>int16_t\<close> samples, \<open>std::byte\<close> storage and
  \<open>int64_t\<close> nanosecond counts (\<open>std::chrono::nanoseconds::count()\<close>). Signed values
  are read with \<open>sint\<close>; sizes (\<open>size_t\<close>) are natural numbers.
\<close>

type_synonym int16 = "16 word"
type_synonym int64 = "64 word"
type_synonym byte = "8 word"

definition INT64_MAX :: int64 where
  "INT64_MAX = 9223372036854775807"

text \<open>\<open>vsdk::audio_info\<close>: codec name, sample rate and channel count.\<close>

record audio_info =
  codec :: string
  sample_rate_hz :: int
  num_channels :: int

text \<open>
  \<open>vsdk::AudioIn::audio_chunk\<close>, with the four fields the pipeline reads and writes.
  A value-initialised chunk has both timestamps zero. Its field \<open>info\<close> is
  \<open>chunk_info\<close> here, \<open>info\<close> being the field of the stream context.
\<close>

record audio_chunk =
  audio_data :: "byte list"
  chunk_info :: audio_info
  start_timestamp_ns :: int64
  end_timestamp_ns :: int64

text \<open>
  \<open>struct AudioStreamContext\<close> of \<open>audio_stream.hpp\<close>. The lock-free queue is the list of
  its stored chunks, oldest first. The type \<open>'d\<close> stands for \<open>double\<close>, whose
  arithmetic is a parameter of the model. The mutex is not modelled: every operation
  below runs to completion on its own.
\<close>

record 'd AudioStreamContext =
  lockfree_queue :: "audio_chunk list"
  history_buffer :: "audio_chunk list"
  history_write_index :: nat
  history_capacity :: nat
  info :: audio_info
  working_buffer :: "int16 list"
  samples_per_chunk :: nat
  current_sample_count :: nat
  stream_start_time :: int64
  current_chunk_start_ns :: int64
  first_callback_adc_time :: 'd
  first_callback_captured :: bool
  is_recording :: bool

section \<open>Hand-off queue\<close>

text \<open>
  Modelled from the spec: \<open>boost::lockfree::spsc_queue\<close> is a library outside the
  repository. With \<open>capacity<100>\<close> it stores at most 100 elements; \<open>push\<close> on a full
  queue stores nothing and returns false, \<open>pop\<close> removes the oldest element and
  returns false on an empty queue.
\<close>

definition queue_capacity :: nat where
  "queue_capacity = 100"

definition spsc_push :: "audio_chunk list \<Rightarrow> audio_chunk \<Rightarrow> bool \<times> audio_chunk list" where
  "spsc_push q c = (if length q < queue_capacity then (True, q @ [c]) else (False, q))"

definition spsc_pop :: "audio_chunk list \<Rightarrow> (audio_chunk \<times> audio_chunk list) option" where
  "spsc_pop q = (case q of [] \<Rightarrow> None | c # rest \<Rightarrow> Some (c, rest))"

text \<open>
  \<open>push_chunk\<close> returns \<open>void\<close> and ignores the flag of the queue: nothing is
  reported to the producer.
\<close>

definition push_chunk :: "'d AudioStreamContext \<Rightarrow> audio_chunk \<Rightarrow> 'd AudioStreamContext" where
  "push_chunk ctx chunk = ctx\<lparr>lockfree_queue := snd (spsc_push (lockfree_queue ctx) chunk)\<rparr>"

text \<open>
  \<open>get_new_chunks\<close>: the pop loop. Each popped chunk is stored in the history buffer at
  the write index, which then advances modulo the capacity. \<open>None\<close> is undefined
  behaviour of the C++: a store outside the vector, or a remainder by zero.
\<close>

function get_new_chunks_loop ::
  "'d AudioStreamContext \<Rightarrow> audio_chunk list \<Rightarrow> (audio_chunk list \<times> 'd AudioStreamContext) option" where
  "get_new_chunks_loop ctx result =
     (case spsc_pop (lockfree_queue ctx) of
        None \<Rightarrow> Some (result, ctx)
      | Some (chunk, rest) \<Rightarrow>
          if history_write_index ctx < length (history_buffer ctx) \<and> history_capacity ctx \<noteq> 0
          then get_new_chunks_loop
                 (ctx\<lparr>lockfree_queue := rest,
                      history_buffer := (history_buffer ctx)[history_write_index ctx := chunk],
                      history_write_index := (history_write_index ctx + 1) mod history_capacity ctx\<rparr>)
                 (result @ [chunk])
          else None)"
  by pat_completeness auto
termination
  by (relation "measure (\<lambda>(ctx, result). length (lockfree_queue ctx))")
     (auto simp: spsc_pop_def split: list.splits)

declare get_new_chunks_loop.simps [simp del]

definition get_new_chunks ::
  "'d AudioStreamContext \<Rightarrow> (audio_chunk list \<times> 'd AudioStreamContext) option" where
  "get_new_chunks ctx = get_new_chunks_loop ctx []"

text \<open>
  The constructor sizes the history buffer to its capacity and starts the write index at
  zero; only \<open>get_new_chunks\<close> changes them afterwards.
\<close>

definition history_ok :: "'d AudioStreamContext \<Rightarrow> bool" where
  "history_ok ctx \<longleftrightarrow>
     length (history_buffer ctx) = history_capacity ctx \<and>
     history_write_index ctx < history_capacity ctx"

section \<open>History ring buffer queries\<close>

text \<open>\<open>operator[]\<close> of a vector: outside the vector the C++ is undefined (\<open>None\<close>).\<close>

definition vec_at :: "'a list \<Rightarrow> nat \<Rightarrow> 'a option" where
  "vec_at xs i = (if i < length xs then Some (xs ! i) else None)"

text \<open>
  \<open>get_chunks_from_timestamp\<close>: the scan \<open>for (i = 0; i < history_capacity; i++)\<close>, with
  the signed comparisons of \<open>int64_t\<close>.
\<close>

function get_chunks_from_timestamp_loop ::
  "'d AudioStreamContext \<Rightarrow> int64 \<Rightarrow> int64 \<Rightarrow> nat \<Rightarrow> audio_chunk list \<Rightarrow> audio_chunk list option" where
  "get_chunks_from_timestamp_loop ctx start_ns end_ns i result =
     (if i < history_capacity ctx then
        (case vec_at (history_buffer ctx) i of
           None \<Rightarrow> None
         | Some chunk \<Rightarrow>
             if start_timestamp_ns chunk = 0
             then get_chunks_from_timestamp_loop ctx start_ns end_ns (i + 1) result
             else if sint start_ns \<le> sint (start_timestamp_ns chunk) \<and>
                     sint (start_timestamp_ns chunk) < sint end_ns
             then get_chunks_from_timestamp_loop ctx start_ns end_ns (i + 1) (result @ [chunk])
             else get_chunks_from_timestamp_loop ctx start_ns end_ns (i + 1) result)
      else Some result)"
  by pat_completeness auto
termination
  by (relation "measure (\<lambda>(ctx, start_ns, end_ns, i, result). history_capacity ctx - i)") auto

declare get_chunks_from_timestamp_loop.simps [simp del]

definition get_chunks_from_timestamp ::
  "'d AudioStreamContext \<Rightarrow> int64 \<Rightarrow> int64 \<Rightarrow> audio_chunk list option" where
  "get_chunks_from_timestamp ctx start_ns end_ns =
     get_chunks_from_timestamp_loop ctx start_ns end_ns 0 []"

text \<open>\<open>std::min\<close> and \<open>std::max\<close> on \<open>int64_t\<close>: the first argument wins a tie.\<close>

definition std_min :: "int64 \<Rightarrow> int64 \<Rightarrow> int64" where
  "std_min a b = (if sint b < sint a then b else a)"

definition std_max :: "int64 \<Rightarrow> int64 \<Rightarrow> int64" where
  "std_max a b = (if sint a < sint b then b else a)"

function get_available_time_range_loop ::
  "'d AudioStreamContext \<Rightarrow> nat \<Rightarrow> int64 \<Rightarrow> int64 \<Rightarrow> (int64 \<times> int64) option" where
  "get_available_time_range_loop ctx i oldest newest =
     (if i < history_capacity ctx then
        (case vec_at (history_buffer ctx) i of
           None \<Rightarrow> None
         | Some chunk \<Rightarrow>
             if start_timestamp_ns chunk = 0
             then get_available_time_range_loop ctx (i + 1) oldest newest
             else get_available_time_range_loop ctx (i + 1)
                    (std_min oldest (start_timestamp_ns chunk))
                    (std_max newest (end_timestamp_ns chunk)))
      else Some (oldest, newest))"
  by pat_completeness auto
termination
  by (relation "measure (\<lambda>(ctx, i, oldest, newest). history_capacity ctx - i)") auto

declare get_available_time_range_loop.simps [simp del]

definition get_available_time_range :: "'d AudioStreamContext \<Rightarrow> (int64 \<times> int64) option" where
  "get_available_time_range ctx =
     (case get_available_time_range_loop ctx 0 INT64_MAX 0 of
        None \<Rightarrow> None
      | Some (oldest, newest) \<Rightarrow>
          if oldest = INT64_MAX then Some (0, 0) else Some (oldest, newest))"

text \<open>
  The range as the specification words it: nothing when every slot is empty, otherwise
  the least start and the greatest end over the non-empty slots.
\<close>

definition non_empty_slots :: "audio_chunk list \<Rightarrow> audio_chunk list" where
  "non_empty_slots slots = filter (\<lambda>c. start_timestamp_ns c \<noteq> 0) slots"

definition spec_available_range :: "audio_chunk list \<Rightarrow> int \<times> int" where
  "spec_available_range slots =
     (if non_empty_slots slots = [] then (0, 0)
      else (Min (sint ` start_timestamp_ns ` set (non_empty_slots slots)),
            Max (sint ` end_timestamp_ns ` set (non_empty_slots slots))))"

section \<open>Chunk assembler: the audio callback\<close>

text \<open>
  The arithmetic of \<open>double\<close> is not embedded: the callback is modelled over any type
  \<open>'d\<close> with the operations it uses. \<open>d_to_ns\<close> is
  \<open>duration_cast<nanoseconds>(duration<double>(x))\<close>, undefined (\<open>None\<close>) when the
  result does not fit \<open>int64_t\<close>.
\<close>

record 'd double_ops =
  d_of_int :: "int \<Rightarrow> 'd"
  d_add :: "'d \<Rightarrow> 'd \<Rightarrow> 'd"
  d_sub :: "'d \<Rightarrow> 'd \<Rightarrow> 'd"
  d_mul :: "'d \<Rightarrow> 'd \<Rightarrow> 'd"
  d_div :: "'d \<Rightarrow> 'd \<Rightarrow> 'd"
  d_to_ns :: "'d \<Rightarrow> int64 option"

text \<open>Addition of two signed 64-bit counts; signed overflow is undefined in C++.\<close>

definition add_ns :: "int64 \<Rightarrow> int64 \<Rightarrow> int64 option" where
  "add_ns a b =
     (if - (2 ^ 63) \<le> sint a + sint b \<and> sint a + sint b < 2 ^ 63 then Some (a + b) else None)"

text \<open>
  \<open>calculate_sample_timestamp\<close>. The wall-clock anchor \<open>stream_start_time\<close> is held as
  nanoseconds since the epoch.
\<close>

definition calculate_sample_timestamp ::
  "'d double_ops \<Rightarrow> 'd AudioStreamContext \<Rightarrow> 'd \<Rightarrow> nat \<Rightarrow> int64 option" where
  "calculate_sample_timestamp D ctx seconds_since_stream_start sample_index =
     (let seconds_per_sample = d_div D (d_of_int D 1) (d_of_int D (sample_rate_hz (info ctx)));
          sample_elapsed_seconds =
            d_add D seconds_since_stream_start
              (d_mul D (d_of_int D (int sample_index)) seconds_per_sample)
      in case d_to_ns D sample_elapsed_seconds of
           None \<Rightarrow> None
         | Some sample_elapsed_duration \<Rightarrow> add_ns (stream_start_time ctx) sample_elapsed_duration)"

text \<open>
  The copy of one interleaved frame, \<open>dst_frame[ch] = src_frame[ch]\<close> for every channel,
  with \<open>src_frame = &input[src]\<close> and \<open>dst_frame = &working_buffer[dst]\<close>.
\<close>

fun copy_channels :: "int16 list \<Rightarrow> nat \<Rightarrow> int16 list \<Rightarrow> nat \<Rightarrow> nat \<Rightarrow> nat \<Rightarrow> int16 list option" where
  "copy_channels input src wb dst ch 0 = Some wb"
| "copy_channels input src wb dst ch (Suc n) =
     (if src + ch < length input \<and> dst + ch < length wb
      then copy_channels input src (wb[dst + ch := input ! (src + ch)]) dst (ch + 1) n
      else None)"

text \<open>The bytes of the samples as \<open>reinterpret_cast\<close> lays them out (little-endian).\<close>

definition sample_bytes :: "int16 list \<Rightarrow> byte list" where
  "sample_bytes xs = concat (map (\<lambda>w. [ucast w, ucast (drop_bit 8 w)]) xs)"

text \<open>The chunk built when the working buffer is full.\<close>

definition make_chunk :: "'d double_ops \<Rightarrow> 'd AudioStreamContext \<Rightarrow> audio_chunk option" where
  "make_chunk D ctx =
     (let total_samples = samples_per_chunk ctx * nat (num_channels (info ctx))
      in if length (working_buffer ctx) < total_samples then None
         else
           (case d_to_ns D (d_div D (d_of_int D (int (samples_per_chunk ctx)))
                                    (d_of_int D (sample_rate_hz (info ctx)))) of
              None \<Rightarrow> None
            | Some dur \<Rightarrow>
                (case add_ns (current_chunk_start_ns ctx) dur of
                   None \<Rightarrow> None
                 | Some end_ns \<Rightarrow>
                     Some \<lparr>audio_data = sample_bytes (take total_samples (working_buffer ctx)),
                           chunk_info = info ctx,
                           start_timestamp_ns = current_chunk_start_ns ctx,
                           end_timestamp_ns = end_ns\<rparr>)))"

text \<open>
  The frame loop of the callback. A negative channel count makes the channel loop, whose
  counter is unsigned, run past both buffers: undefined.
\<close>

function AudioCallback_loop ::
  "'d double_ops \<Rightarrow> 'd AudioStreamContext \<Rightarrow> int16 list \<Rightarrow> 'd \<Rightarrow> nat \<Rightarrow> nat \<Rightarrow>
     'd AudioStreamContext option" where
  "AudioCallback_loop D ctx input seconds_since_stream_start framesPerBuffer i =
     (if i < framesPerBuffer then
        (let buffer_idx = current_sample_count ctx in
         case (if buffer_idx = 0
               then map_option (\<lambda>t. ctx\<lparr>current_chunk_start_ns := t\<rparr>)
                      (calculate_sample_timestamp D ctx seconds_since_stream_start i)
               else Some ctx) of
           None \<Rightarrow> None
         | Some ctx1 \<Rightarrow>
             if num_channels (info ctx1) < 0 then None
             else
               (case copy_channels input (i * nat (num_channels (info ctx1)))
                       (working_buffer ctx1) (buffer_idx * nat (num_channels (info ctx1)))
                       0 (nat (num_channels (info ctx1))) of
                  None \<Rightarrow> None
                | Some wb \<Rightarrow>
                    (let ctx2 = ctx1\<lparr>working_buffer := wb,
                                     current_sample_count := current_sample_count ctx1 + 1\<rparr>
                     in if current_sample_count ctx2 = samples_per_chunk ctx2
                        then (case make_chunk D ctx2 of
                                None \<Rightarrow> None
                              | Some chunk \<Rightarrow>
                                  AudioCallback_loop D
                                    ((push_chunk ctx2 chunk)\<lparr>current_sample_count := 0\<rparr>)
                                    input seconds_since_stream_start framesPerBuffer (i + 1))
                        else AudioCallback_loop D ctx2 input seconds_since_stream_start
                               framesPerBuffer (i + 1))))
      else Some ctx)"
  by pat_completeness auto
termination
  by (relation "measure (\<lambda>(D, ctx, input, secs, framesPerBuffer, i). framesPerBuffer - i)") auto

declare AudioCallback_loop.simps [simp del]

definition paContinue :: int where
  "paContinue = 0"

text \<open>
  \<open>AudioCallback\<close>. \<open>inputBuffer\<close> is \<open>None\<close> for a null pointer; \<open>adc_time\<close> is
  \<open>timeInfo->inputBufferAdcTime\<close> and \<open>now\<close> the reading of
  \<open>std::chrono::system_clock::now()\<close> the first callback takes. The output buffer and
  the status flags are not used.
\<close>

definition AudioCallback ::
  "'d double_ops \<Rightarrow> 'd AudioStreamContext \<Rightarrow> int16 list option \<Rightarrow> nat \<Rightarrow> 'd \<Rightarrow> int64 \<Rightarrow>
     (int \<times> 'd AudioStreamContext) option" where
  "AudioCallback D ctx inputBuffer framesPerBuffer adc_time now =
     (case inputBuffer of
        None \<Rightarrow> Some (paContinue, ctx)
      | Some input \<Rightarrow>
          if \<not> is_recording ctx then Some (paContinue, ctx)
          else
            (let ctx1 = (if \<not> first_callback_captured ctx
                         then ctx\<lparr>first_callback_adc_time := adc_time,
                                  stream_start_time := now,
                                  first_callback_captured := True\<rparr>
                         else ctx);
                 seconds_since_stream_start = d_sub D adc_time (first_callback_adc_time ctx1)
             in map_option (\<lambda>c. (paContinue, c))
                  (AudioCallback_loop D ctx1 input seconds_since_stream_start framesPerBuffer 0)))"


section \<open>The rounding model of double\<close>

text \<open>
  What is assumed of the operations on \<open>double\<close> when a numeric statement is made: the
  standard model of binary64 arithmetic in round-to-nearest, stated where it holds of
  binary64, away from overflow and underflow. Every \<open>double\<close> has a real value.
  Integers up to \<open>2 ^ 53\<close> convert exactly. On operands of magnitude at most
  \<open>2 ^ 1000\<close>, a sum or a difference is the exact one with a relative error of at most
  \<open>2 ^ -53\<close>, and so is a product or a quotient whose exact value is zero or of
  magnitude between \<open>2 ^ -1000\<close> and \<open>2 ^ 1000\<close>. The conversion to nanoseconds, a
  multiplication by \<open>10 ^ 9\<close> followed by a truncation, is defined when the result fits
  comfortably and is then off by at most that relative error plus one nanosecond.
\<close>

definition unit_roundoff :: real where
  "unit_roundoff = 1 / 2 ^ 53"

definition double_huge :: real where
  "double_huge = 2 ^ 1000"

definition in_normal_range :: "real \<Rightarrow> bool" where
  "in_normal_range x \<longleftrightarrow> x = 0 \<or> (1 / double_huge \<le> \<bar>x\<bar> \<and> \<bar>x\<bar> \<le> double_huge)"

definition double_model :: "'d double_ops \<Rightarrow> ('d \<Rightarrow> real) \<Rightarrow> bool" where
  "double_model D val \<longleftrightarrow>
     (\<forall>n. \<bar>n\<bar> \<le> 2 ^ 53 \<longrightarrow> val (d_of_int D n) = of_int n) \<and>
     (\<forall>a b. \<bar>val a\<bar> \<le> double_huge \<and> \<bar>val b\<bar> \<le> double_huge \<longrightarrow>
        \<bar>val (d_add D a b) - (val a + val b)\<bar> \<le> unit_roundoff * \<bar>val a + val b\<bar>) \<and>
     (\<forall>a b. \<bar>val a\<bar> \<le> double_huge \<and> \<bar>val b\<bar> \<le> double_huge \<longrightarrow>
        \<bar>val (d_sub D a b) - (val a - val b)\<bar> \<le> unit_roundoff * \<bar>val a - val b\<bar>) \<and>
     (\<forall>a b. \<bar>val a\<bar> \<le> double_huge \<and> \<bar>val b\<bar> \<le> double_huge \<and>
            in_normal_range (val a * val b) \<longrightarrow>
        \<bar>val (d_mul D a b) - val a * val b\<bar> \<le> unit_roundoff * \<bar>val a * val b\<bar>) \<and>
     (\<forall>a b. \<bar>val a\<bar> \<le> double_huge \<and> \<bar>val b\<bar> \<le> double_huge \<and> val b \<noteq> 0 \<and>
            in_normal_range (val a / val b) \<longrightarrow>
        \<bar>val (d_div D a b) - val a / val b\<bar> \<le> unit_roundoff * \<bar>val a / val b\<bar>) \<and>
     (\<forall>x. \<bar>val x\<bar> * 10 ^ 9 \<le> 2 ^ 62 \<longrightarrow>
        (\<exists>t. d_to_ns D x = Some t \<and>
           \<bar>of_int (sint t) - val x * 10 ^ 9\<bar> \<le> 1 + unit_roundoff * \<bar>val x * 10 ^ 9\<bar>))"

section \<open>Streaming encoder\<close>

text \<open>
  The codec is the library libavcodec, outside the repository. It is a parameter of the
  model: the type \<open>'c\<close> is whatever lies behind the library interface (the codec
  session and the allocator), and the record below holds the three library calls the
  encoder makes once it is set up, each returning its C result and the next state.
  \<open>avcodec_receive_packet\<close> also yields the bytes of the packet.
\<close>

text \<open>
  An \<open>AVFrame\<close> is the list of its sample planes, \<open>frame->data[ch]\<close>; a frame whose
  buffer was never allocated has none.
\<close>

type_synonym AVFrame = "int16 list list"

record 'c avcodec =
  avcodec_send_frame :: "'c \<Rightarrow> AVFrame option \<Rightarrow> int \<times> 'c"
  avcodec_receive_packet :: "'c \<Rightarrow> int \<times> byte list \<times> 'c"
  av_packet_alloc :: "'c \<Rightarrow> bool"

text \<open>The two result codes the encoder names, with their values on Linux.\<close>

definition AVERROR_EAGAIN :: int where
  "AVERROR_EAGAIN = - 11"

definition AVERROR_EOF :: int where
  "AVERROR_EOF = - 541478725"

definition INT_MAX :: int where
  "INT_MAX = 2147483647"

text \<open>
  \<open>AVCodecContext\<close>, reduced to the frame size the encoder reads and the state of the
  session, and \<open>MP3EncoderState\<close>. A null smart pointer is \<open>None\<close>. The header
  \<open>mp3_encoder.hpp\<close> that declares \<open>MP3EncoderState\<close> is not among the sources: the
  fields are those \<open>mp3_encoder.cpp\<close> and its tests use. Its field \<open>num_channels\<close>
  is \<open>enc_num_channels\<close> here, the name being taken by \<open>audio_info\<close>.
\<close>

record 'c AVCodecContext =
  frame_size :: int
  codec_state :: 'c

record 'c MP3EncoderState =
  encoder_ctx :: "'c AVCodecContext option"
  frame :: "AVFrame option"
  sample_rate :: int
  enc_num_channels :: int
  buffer :: "int16 list"

text \<open>
  The library calls of \<open>initialize_mp3_encoder\<close>, with what they answer:
  whether \<open>avcodec_find_encoder\<close> finds the MP3 encoder, the fresh session of
  \<open>avcodec_alloc_context3\<close> (\<open>None\<close> for a null pointer), the result of
  \<open>avcodec_open2\<close> on the context configured for a sample rate and a channel count
  together with the context as the codec leaves it, whether \<open>av_frame_alloc\<close>
  succeeds, and the result of \<open>av_frame_get_buffer\<close> for a number of samples and of
  channels together with the planes it allocates.
\<close>

record 'c avcodec_setup =
  avcodec_find_encoder :: bool
  avcodec_alloc_context3 :: "'c option"
  avcodec_open2 :: "int \<Rightarrow> int \<Rightarrow> 'c AVCodecContext \<Rightarrow> int \<times> 'c AVCodecContext"
  av_frame_alloc :: bool
  av_frame_get_buffer :: "int \<Rightarrow> int \<Rightarrow> int \<times> AVFrame"

text \<open>What \<open>VIAM_SDK_LOG\<close> is given by the encoder.\<close>

datatype log_entry =
  Warn_MP3_encoder_error int
| Info_flushed_packets int
| Info_discarded_samples nat
| Info_MP3_encoder_initialized int int int

text \<open>
  How a call ends: it returns a value, throws \<open>std::runtime_error\<close> with a message, or
  is undefined. The state \<open>'s\<close> is the one the caller finds afterwards.
\<close>

datatype ('a, 's) outcome = Returns 'a 's | Throws string 's | Undefined

text \<open>
  \<open>initialize_mp3_encoder\<close>. The context is stored in the state as soon as it is
  allocated (line 37) and the frame as soon as it is allocated (line 56); the sample
  rate, the channel count and the cleared buffer follow only after the last call that
  can fail. The frame size is set to 1152 before the codec is opened.
\<close>

definition initialize_mp3_encoder ::
  "'c avcodec_setup \<Rightarrow> 'c MP3EncoderState \<Rightarrow> int \<Rightarrow> int \<Rightarrow>
     (unit, 'c MP3EncoderState \<times> log_entry list) outcome" where
  "initialize_mp3_encoder setup state sample_rt n_channels =
     (if \<not> avcodec_find_encoder setup then Throws ''MP3 encoder not found'' (state, [])
      else
        (case avcodec_alloc_context3 setup of
           None \<Rightarrow> Throws ''Could not allocate MP3 encoder context'' (state, [])
         | Some c0 \<Rightarrow>
             (case avcodec_open2 setup sample_rt n_channels
                     \<lparr>frame_size = 1152, codec_state = c0\<rparr> of
                (ret, ectx) \<Rightarrow>
                  (let state1 = state\<lparr>encoder_ctx := Some ectx\<rparr>
                   in if ret < 0 then Throws ''Could not open MP3 encoder'' (state1, [])
                      else if \<not> av_frame_alloc setup
                      then Throws ''Could not allocate MP3 frame'' (state1, [])
                      else
                        (case av_frame_get_buffer setup (frame_size ectx) n_channels of
                           (ret2, planes) \<Rightarrow>
                             if ret2 < 0
                             then Throws ''Could not allocate MP3 frame buffer''
                                    (state1\<lparr>frame := Some []\<rparr>, [])
                             else Returns ()
                                    (state1\<lparr>frame := Some planes, sample_rate := sample_rt,
                                            enc_num_channels := n_channels, buffer := []\<rparr>,
                                     [Info_MP3_encoder_initialized sample_rt n_channels
                                        (frame_size ectx)]))))))"

text \<open>
  \<open>deinterleave_samples\<close>: plane \<open>ch\<close> of the frame receives the samples
  \<open>interleaved[i * num_channels + ch]\<close> in its first \<open>frame_size\<close> places. When the
  two loops run at all, a plane that is missing or shorter than the frame size, or a
  read past the interleaved samples, is undefined (\<open>None\<close>).
\<close>

definition deinterleave_samples :: "int16 list \<Rightarrow> AVFrame \<Rightarrow> int \<Rightarrow> int \<Rightarrow> AVFrame option" where
  "deinterleave_samples interleaved fr frame_sz n_channels =
     (if 0 < n_channels \<and> 0 < frame_sz
      then
        (if nat n_channels \<le> length fr \<and>
            list_all (\<lambda>ch. nat frame_sz \<le> length (fr ! ch)) [0..<nat n_channels] \<and>
            nat frame_sz * nat n_channels \<le> length interleaved
         then Some (map (\<lambda>ch. map (\<lambda>i. interleaved ! (i * nat n_channels + ch))
                                  [0..<nat frame_sz] @
                                drop (nat frame_sz) (fr ! ch))
                      [0..<nat n_channels] @
                    drop (nat n_channels) fr)
         else None)
      else Some fr)"

text \<open>
  \<open>static_cast<size_t>(frame_size * num_channels)\<close>: a product of two \<open>int\<close>, undefined
  on overflow, converted to the unsigned 64-bit \<open>size_t\<close>.
\<close>

definition samples_per_frame :: "int \<Rightarrow> int \<Rightarrow> nat option" where
  "samples_per_frame frame_sz n_channels =
     (if - (2 ^ 31) \<le> frame_sz * n_channels \<and> frame_sz * n_channels < 2 ^ 31
      then Some (nat ((frame_sz * n_channels) mod 2 ^ 64))
      else None)"

text \<open>
  The polling loop \<open>while ((ret = avcodec_receive_packet(...)) == 0)\<close> of
  \<open>encode_mp3_samples\<close>. The codec decides how often it answers 0, so the loop runs
  on fuel: \<open>None\<close> is a loop that has not ended within it.
\<close>

fun receive_packets :: "'c avcodec \<Rightarrow> nat \<Rightarrow> 'c \<Rightarrow> byte list \<Rightarrow> (int \<times> 'c \<times> byte list) option" where
  "receive_packets lib 0 c output_data = None"
| "receive_packets lib (Suc fuel) c output_data =
     (case avcodec_receive_packet lib c of
        (ret, pkt, c') \<Rightarrow>
          if ret = 0 then receive_packets lib fuel c' (output_data @ pkt)
          else Some (ret, c', output_data))"

text \<open>
  The frame loop \<open>while (state.buffer.size() >= samples_per_frame)\<close>. The state threaded
  through is the encoder state, the caller's output bytes and the lines logged.
\<close>

fun encode_loop ::
  "'c avcodec \<Rightarrow> nat \<Rightarrow> 'c MP3EncoderState \<Rightarrow> nat \<Rightarrow> byte list \<Rightarrow> log_entry list \<Rightarrow>
     (unit, 'c MP3EncoderState \<times> byte list \<times> log_entry list) outcome option" where
  "encode_loop lib 0 state spf output_data logged =
     (if spf \<le> length (buffer state) then None
      else Some (Returns () (state, output_data, logged)))"
| "encode_loop lib (Suc fuel) state spf output_data logged =
     (if spf \<le> length (buffer state) then
        (case (encoder_ctx state, frame state) of
           (Some ectx, Some fr) \<Rightarrow>
             (case deinterleave_samples (buffer state) fr (frame_size ectx)
                     (enc_num_channels state) of
                None \<Rightarrow> Some Undefined
              | Some fr' \<Rightarrow>
                  (case avcodec_send_frame lib (codec_state ectx) (Some fr') of
                     (ret, c1) \<Rightarrow>
                       (let state1 = state\<lparr>frame := Some fr',
                                           encoder_ctx := Some (ectx\<lparr>codec_state := c1\<rparr>)\<rparr>
                        in if ret < 0
                           then Some (Throws ''Error sending frame to MP3 encoder''
                                        (state1, output_data, logged))
                           else
                             (let state2 = state1\<lparr>buffer := drop spf (buffer state1)\<rparr>
                              in if \<not> av_packet_alloc lib c1
                                 then Some (Throws ''Could not allocate packet''
                                              (state2, output_data, logged))
                                 else
                                   (case receive_packets lib fuel c1 output_data of
                                      None \<Rightarrow> None
                                    | Some (ret2, c2, output_data') \<Rightarrow>
                                        encode_loop lib fuel
                                          (state2\<lparr>encoder_ctx :=
                                                    Some (ectx\<lparr>codec_state := c2\<rparr>)\<rparr>)
                                          spf output_data'
                                          (if ret2 \<noteq> AVERROR_EAGAIN \<and> ret2 \<noteq> AVERROR_EOF
                                           then logged @ [Warn_MP3_encoder_error ret2]
                                           else logged))))))
         | _ \<Rightarrow> Some Undefined)
      else Some (Returns () (state, output_data, logged)))"

text \<open>
  \<open>encode_mp3_samples\<close>. The argument \<open>samples\<close> is the range
  \<open>[samples, samples + sample_count)\<close>.
\<close>

definition encode_mp3_samples ::
  "'c avcodec \<Rightarrow> nat \<Rightarrow> 'c MP3EncoderState \<Rightarrow> int16 list \<Rightarrow> byte list \<Rightarrow>
     (unit, 'c MP3EncoderState \<times> byte list \<times> log_entry list) outcome option" where
  "encode_mp3_samples lib fuel state samples output_data =
     (case (encoder_ctx state, frame state) of
        (Some ectx, Some fr) \<Rightarrow>
          (let state1 = state\<lparr>buffer := buffer state @ samples\<rparr>
           in case samples_per_frame (frame_size ectx) (enc_num_channels state1) of
                None \<Rightarrow> Some Undefined
              | Some spf \<Rightarrow> encode_loop lib fuel state1 spf output_data [])
      | _ \<Rightarrow> Some (Throws ''MP3 encoder not initialized'' (state, output_data, [])))"

text \<open>
  The counting loop of \<open>flush_mp3_encoder\<close>; \<open>flushed_packets++\<close> on an \<open>int\<close> at its
  maximum is undefined.
\<close>

fun flush_drain :: "'c avcodec \<Rightarrow> nat \<Rightarrow> 'c \<Rightarrow> int \<Rightarrow> (int, 'c) outcome option" where
  "flush_drain lib 0 c flushed_packets = None"
| "flush_drain lib (Suc fuel) c flushed_packets =
     (case avcodec_receive_packet lib c of
        (ret, pkt, c') \<Rightarrow>
          if ret = 0
          then (if flushed_packets = INT_MAX then Some Undefined
                else flush_drain lib fuel c' (flushed_packets + 1))
          else Some (Returns flushed_packets c'))"

text \<open>
  \<open>flush_mp3_encoder\<close>. The quotient in the last log line is taken in \<open>size_t\<close>, to
  which the channel count is converted; a zero divisor is undefined.
\<close>

definition flush_mp3_encoder ::
  "'c avcodec \<Rightarrow> nat \<Rightarrow> 'c MP3EncoderState \<Rightarrow>
     (int, 'c MP3EncoderState \<times> log_entry list) outcome option" where
  "flush_mp3_encoder lib fuel state =
     (case encoder_ctx state of
        None \<Rightarrow> Some (Returns 0 (state, []))
      | Some ectx \<Rightarrow>
          (case avcodec_send_frame lib (codec_state ectx) None of
             (ret, c1) \<Rightarrow>
               if \<not> av_packet_alloc lib c1
               then Some (Returns 0 (state\<lparr>encoder_ctx := Some (ectx\<lparr>codec_state := c1\<rparr>)\<rparr>, []))
               else
                 (case flush_drain lib fuel c1 0 of
                    None \<Rightarrow> None
                  | Some (Returns flushed_packets c2) \<Rightarrow>
                      (let state2 = state\<lparr>encoder_ctx := Some (ectx\<lparr>codec_state := c2\<rparr>)\<rparr>;
                           log1 = (if 0 < flushed_packets
                                   then [Info_flushed_packets flushed_packets] else [])
                       in if buffer state2 \<noteq> []
                          then (if enc_num_channels state2 mod 2 ^ 64 = 0 then Some Undefined
                                else Some (Returns flushed_packets
                                       (state2,
                                        log1 @ [Info_discarded_samples
                                                  (length (buffer state2) div
                                                   nat (enc_num_channels state2 mod 2 ^ 64))])))
                          else Some (Returns flushed_packets (state2, log1)))
                  | Some _ \<Rightarrow> Some Undefined)))"

text \<open>\<open>cleanup_mp3_encoder\<close>: both pointers reset, the buffer cleared.\<close>

definition cleanup_mp3_encoder :: "'c MP3EncoderState \<Rightarrow> 'c MP3EncoderState" where
  "cleanup_mp3_encoder state =
     state\<lparr>frame := None, encoder_ctx := None, buffer := [], sample_rate := 0,
           enc_num_channels := 0\<rparr>"

text \<open>
  What it means for the codec to hold exactly \<open>k\<close> packets: from state \<open>c\<close> it answers
  \<open>k\<close> polls with 0 and the next one with another code, ending in the state returned.
  \<open>polls\<close> also gives that code and the bytes of the packets, in order.
\<close>

fun delivers :: "'c avcodec \<Rightarrow> nat \<Rightarrow> 'c \<Rightarrow> 'c option" where
  "delivers lib 0 c =
     (case avcodec_receive_packet lib c of
        (ret, pkt, c') \<Rightarrow> if ret \<noteq> 0 then Some c' else None)"
| "delivers lib (Suc k) c =
     (case avcodec_receive_packet lib c of
        (ret, pkt, c') \<Rightarrow> if ret = 0 then delivers lib k c' else None)"

fun polls :: "'c avcodec \<Rightarrow> nat \<Rightarrow> 'c \<Rightarrow> (int \<times> byte list \<times> 'c) option" where
  "polls lib 0 c =
     (case avcodec_receive_packet lib c of
        (ret, pkt, c') \<Rightarrow> if ret \<noteq> 0 then Some (ret, [], c') else None)"
| "polls lib (Suc k) c =
     (case avcodec_receive_packet lib c of
        (ret, pkt, c') \<Rightarrow>
          if ret = 0
          then (case polls lib k c' of
                  None \<Rightarrow> None
                | Some (r, bytes, c'') \<Rightarrow> Some (r, pkt @ bytes, c''))
          else None)"

text \<open>The outcome of a call with some lines logged before it.\<close>

fun logged_before ::
  "log_entry list \<Rightarrow> ('a, 's \<times> 'b \<times> log_entry list) outcome \<Rightarrow>
     ('a, 's \<times> 'b \<times> log_entry list) outcome" where
  "logged_before w (Returns u (s, out, l)) = Returns u (s, out, w @ l)"
| "logged_before w (Throws msg (s, out, l)) = Throws msg (s, out, w @ l)"
| "logged_before w Undefined = Undefined"

section \<open>Concrete states and codecs\<close>

text \<open>
  The constructor of \<open>AudioStreamContext\<close>, its allocations taken to succeed: the history
  buffer holds \<open>history_capacity\<close> value-initialised chunks, the working buffer
  \<open>samples_per_chunk * num_channels\<close> zero samples.
\<close>

definition empty_chunk :: audio_chunk where
  "empty_chunk =
     \<lparr>audio_data = [], chunk_info = \<lparr>codec = [], sample_rate_hz = 0, num_channels = 0\<rparr>,
      start_timestamp_ns = 0, end_timestamp_ns = 0\<rparr>"

definition AudioStreamContext_init ::
  "'d double_ops \<Rightarrow> audio_info \<Rightarrow> nat \<Rightarrow> nat \<Rightarrow> 'd AudioStreamContext" where
  "AudioStreamContext_init D audio_inf n_samples_per_chunk n_history_capacity =
     \<lparr>lockfree_queue = [],
      history_buffer = replicate n_history_capacity empty_chunk,
      history_write_index = 0,
      history_capacity = n_history_capacity,
      info = audio_inf,
      working_buffer =
        replicate (nat ((int n_samples_per_chunk * num_channels audio_inf) mod 2 ^ 64)) 0,
      samples_per_chunk = n_samples_per_chunk,
      current_sample_count = 0,
      stream_start_time = 0,
      current_chunk_start_ns = 0,
      first_callback_adc_time = d_of_int D 0,
      first_callback_captured = False,
      is_recording = True\<rparr>"

text \<open>
  The fixture of the tests: mono, 44.1 kHz, chunks of 4410 samples, and chunks of 100 ms
  with a given start (their sample bytes left empty). The callback is not run on it, so
  the operations on \<open>double\<close> are placeholders.
\<close>

definition mono_44100 :: audio_info where
  "mono_44100 = \<lparr>codec = ''pcm16'', sample_rate_hz = 44100, num_channels = 1\<rparr>"

definition no_double_ops :: "unit double_ops" where
  "no_double_ops =
     \<lparr>d_of_int = (\<lambda>_. ()), d_add = (\<lambda>_ _. ()), d_sub = (\<lambda>_ _. ()), d_mul = (\<lambda>_ _. ()),
      d_div = (\<lambda>_ _. ()), d_to_ns = (\<lambda>_. None)\<rparr>"

definition test_context :: "nat \<Rightarrow> unit AudioStreamContext" where
  "test_context n_history_capacity =
     AudioStreamContext_init no_double_ops mono_44100 4410 n_history_capacity"

definition test_chunk :: "int64 \<Rightarrow> audio_chunk" where
  "test_chunk start_ns =
     \<lparr>audio_data = [], chunk_info = mono_44100,
      start_timestamp_ns = start_ns, end_timestamp_ns = start_ns + 100000000\<rparr>"

text \<open>
  A small codec to run the encoder on. It keeps one submitted frame back (its lookahead)
  and emits a one-byte packet for each other one; after the end-of-stream signal it
  emits the frame kept back and refuses further frames.
\<close>

definition lookahead_codec :: "(nat \<times> bool) avcodec" where
  "lookahead_codec =
     \<lparr>avcodec_send_frame =
        (\<lambda>(pending, draining) f.
           if draining then (AVERROR_EOF, (pending, draining))
           else (case f of None \<Rightarrow> (0, (pending, True))
                 | Some _ \<Rightarrow> (0, (Suc pending, False)))),
      avcodec_receive_packet =
        (\<lambda>(pending, draining).
           if draining
           then (if 0 < pending then (0, [255], (pending - 1, True))
                 else (AVERROR_EOF, [], (pending, True)))
           else (if 1 < pending then (0, [255], (pending - 1, False))
                 else (AVERROR_EAGAIN, [], (pending, False)))),
      av_packet_alloc = (\<lambda>_. True)\<rparr>"

text \<open>A codec that accepts every frame and answers every poll with the code \<open>r\<close>.\<close>

definition answering_codec :: "int \<Rightarrow> unit avcodec" where
  "answering_codec r =
     \<lparr>avcodec_send_frame = (\<lambda>c f. (0, c)),
      avcodec_receive_packet = (\<lambda>c. (r, [], c)),
      av_packet_alloc = (\<lambda>_. True)\<rparr>"

text \<open>A codec that rejects every frame with \<open>AVERROR(EINVAL)\<close>.\<close>

definition rejecting_codec :: "unit avcodec" where
  "rejecting_codec =
     \<lparr>avcodec_send_frame = (\<lambda>c f. (- 22, c)),
      avcodec_receive_packet = (\<lambda>c. (AVERROR_EAGAIN, [], c)),
      av_packet_alloc = (\<lambda>_. True)\<rparr>"

text \<open>
  An initialised encoder for two channels and frames of two samples, so that one frame
  is four interleaved samples, and the encoder as \<open>cleanup_mp3_encoder\<close> leaves it.
\<close>

definition ready_state :: "'c \<Rightarrow> int16 list \<Rightarrow> 'c MP3EncoderState" where
  "ready_state c buffered =
     \<lparr>encoder_ctx = Some \<lparr>frame_size = 2, codec_state = c\<rparr>,
      frame = Some [ [0, 0], [0, 0] ],
      sample_rate = 48000,
      enc_num_channels = 2,
      buffer = buffered\<rparr>"

definition uninitialized_state :: "'c MP3EncoderState" where
  "uninitialized_state =
     \<lparr>encoder_ctx = None, frame = None, sample_rate = 0, enc_num_channels = 0, buffer = []\<rparr>"

text \<open>
  A history of five slots holding the chunks that start at 1 s, 2 s and 3 s, and one of
  two slots holding a chunk that starts 200 ms before the epoch.
\<close>

definition history_123 :: "unit AudioStreamContext" where
  "history_123 =
     (test_context 5)\<lparr>history_buffer :=
        [test_chunk 1000000000, test_chunk 2000000000, test_chunk 3000000000,
         empty_chunk, empty_chunk],
        history_write_index := 3\<rparr>"


text \<open>
  Exact arithmetic on the reals, one interpretation of the rounding model, and the
  fixture of the tests anchored at a wall-clock time in November 2023.
\<close>

definition exact_ops :: "real double_ops" where
  "exact_ops =
     \<lparr>d_of_int = of_int, d_add = (+), d_sub = (-), d_mul = (*), d_div = (/),
      d_to_ns = (\<lambda>x. if \<bar>x\<bar> * 10 ^ 9 < 2 ^ 63
                        then Some (word_of_int (if 0 \<le> x then \<lfloor>x * 10 ^ 9\<rfloor> else \<lceil>x * 10 ^ 9\<rceil>))
                        else None)\<rparr>"

definition anchored_context :: "real AudioStreamContext" where
  "anchored_context =
     (AudioStreamContext_init exact_ops mono_44100 4410 100)
       \<lparr>stream_start_time := 1700000000000000000, first_callback_captured := True\<rparr>"

text \<open>
  A library in which every call of \<open>initialize_mp3_encoder\<close> succeeds, for a codec
  with frames of two samples, and one in which the last call, \<open>av_frame_get_buffer\<close>,
  fails for lack of memory.
\<close>

definition working_setup :: "'c \<Rightarrow> 'c avcodec_setup" where
  "working_setup c0 =
     \<lparr>avcodec_find_encoder = True,
      avcodec_alloc_context3 = Some c0,
      avcodec_open2 = (\<lambda>sample_rt n_channels ectx. (0, ectx\<lparr>frame_size := 2\<rparr>)),
      av_frame_alloc = True,
      av_frame_get_buffer =
        (\<lambda>nb_samples n_channels. (0, replicate (nat n_channels) (replicate (nat nb_samples) 0)))\<rparr>"

definition no_frame_buffer_setup :: "unit avcodec_setup" where
  "no_frame_buffer_setup =
     \<lparr>avcodec_find_encoder = True,
      avcodec_alloc_context3 = Some (),
      avcodec_open2 = (\<lambda>sample_rt n_channels ectx. (0, ectx)),
      av_frame_alloc = True,
      av_frame_get_buffer = (\<lambda>nb_samples n_channels. (- 12, []))\<rparr>"

text \<open>
  The state that failed initialisation leaves behind: the context and the frame are
  set, the frame has no planes, and the sample rate, the channel count and the buffer
  are those of the state it started from.
\<close>

definition half_initialized_state :: "unit MP3EncoderState" where
  "half_initialized_state =
     \<lparr>encoder_ctx = Some \<lparr>frame_size = 1152, codec_state = ()\<rparr>,
      frame = Some [],
      sample_rate = 0,
      enc_num_channels = 0,
      buffer = []\<rparr>"

text \<open>
  A codec that emits a one-byte packet for every frame it is sent and then answers
  the poll with \<open>AVERROR(EIO)\<close>.
\<close>

definition faulty_codec :: "nat avcodec" where
  "faulty_codec =
     \<lparr>avcodec_send_frame = (\<lambda>pending f. (0, Suc pending)),
      avcodec_receive_packet =
        (\<lambda>pending. if 0 < pending then (0, [255], pending - 1) else (- 5, [], 0)),
      av_packet_alloc = (\<lambda>_. True)\<rparr>"

section \<open>The hand-off queue: pushes and one drain\<close>

lemma push_chunk_queue:
  "lockfree_queue (push_chunk ctx c) =
     (if length (lockfree_queue ctx) < queue_capacity then lockfree_queue ctx @ [c]
      else lockfree_queue ctx)"
  by (simp add: push_chunk_def spsc_push_def)

lemma push_chunk_history_ok: "history_ok (push_chunk ctx c) = history_ok ctx"
  by (simp add: push_chunk_def history_ok_def)

lemma history_ok_init:
  "0 < n_history_capacity \<Longrightarrow>
   history_ok (AudioStreamContext_init D audio_inf n_samples_per_chunk n_history_capacity)"
  by (simp add: history_ok_def AudioStreamContext_init_def)

lemma foldl_push_history_ok: "history_ok (foldl push_chunk ctx cs) = history_ok ctx"
  by (induction cs arbitrary: ctx) (simp_all add: push_chunk_history_ok)

lemma foldl_push_queue:
  "lockfree_queue (foldl push_chunk ctx cs) =
     lockfree_queue ctx @ take (queue_capacity - length (lockfree_queue ctx)) cs"
proof (induction cs arbitrary: ctx)
  case Nil
  show ?case by simp
next
  case (Cons c cs)
  show ?case
  proof (cases "length (lockfree_queue ctx) < queue_capacity")
    case True
    then obtain k where k: "queue_capacity - length (lockfree_queue ctx) = Suc k"
      by (metis Suc_diff_Suc)
    then have "queue_capacity - Suc (length (lockfree_queue ctx)) = k" by arith
    with True k show ?thesis
      by (simp add: Cons.IH push_chunk_queue)
  next
    case False
    then show ?thesis by (simp add: Cons.IH push_chunk_queue)
  qed
qed

lemma get_new_chunks_loop_drains:
  "history_ok ctx \<Longrightarrow>
   \<exists>ctx'. get_new_chunks_loop ctx result = Some (result @ lockfree_queue ctx, ctx') \<and>
          lockfree_queue ctx' = [] \<and> history_ok ctx'"
proof (induction ctx result rule: get_new_chunks_loop.induct)
  case (1 ctx result)
  show ?case
  proof (cases "lockfree_queue ctx")
    case Nil
    with "1.prems" show ?thesis
      by (subst get_new_chunks_loop.simps) (simp add: spsc_pop_def)
  next
    case (Cons chunk rest)
    let ?ctx = "ctx\<lparr>lockfree_queue := rest,
                    history_buffer := (history_buffer ctx)[history_write_index ctx := chunk],
                    history_write_index := (history_write_index ctx + 1) mod history_capacity ctx\<rparr>"
    from "1.prems" have ok:
      "history_write_index ctx < length (history_buffer ctx) \<and> history_capacity ctx \<noteq> 0"
      by (auto simp: history_ok_def)
    from "1.prems" have ok': "history_ok ?ctx"
      by (auto simp: history_ok_def)
    have pop: "spsc_pop (lockfree_queue ctx) = Some (chunk, rest)"
      by (simp add: Cons spsc_pop_def)
    from "1.IH"[OF pop refl ok ok'] obtain ctx' where
      "get_new_chunks_loop ?ctx (result @ [chunk]) =
         Some ((result @ [chunk]) @ lockfree_queue ?ctx, ctx')"
      "lockfree_queue ctx' = []" "history_ok ctx'" by blast
    then show ?thesis
      using ok pop Cons by (subst get_new_chunks_loop.simps) simp
  qed
qed

text \<open>
  C1: after any pushes into an empty queue, one drain returns the first
  \<open>min N 100\<close> pushed chunks in push order (the later ones were dropped by
  \<open>push_chunk\<close>, which reports nothing), and the next drain returns no chunk. The
  context has a history buffer of its capacity, with the write index inside it.
\<close>

theorem drain_returns_first_100_in_order:
  assumes "lockfree_queue ctx = []" and "history_ok ctx"
  shows "\<exists>ctx'. get_new_chunks (foldl push_chunk ctx chunks) =
                  Some (take (min (length chunks) 100) chunks, ctx') \<and>
               get_new_chunks ctx' = Some ([], ctx')"
proof -
  have q: "lockfree_queue (foldl push_chunk ctx chunks) = take 100 chunks"
    using assms(1) by (simp add: foldl_push_queue queue_capacity_def)
  have "history_ok (foldl push_chunk ctx chunks)"
    using assms(2) by (simp add: foldl_push_history_ok)
  from get_new_chunks_loop_drains[OF this, of "[]"] q obtain ctx' where
    c: "get_new_chunks (foldl push_chunk ctx chunks) = Some (take 100 chunks, ctx')"
       "lockfree_queue ctx' = []" "history_ok ctx'"
    by (auto simp: get_new_chunks_def)
  have "get_new_chunks ctx' = Some ([], ctx')"
    using c(2) by (simp add: get_new_chunks_def get_new_chunks_loop.simps spsc_pop_def)
  moreover have "take (min (length chunks) 100) chunks = take 100 chunks"
    by (simp add: min_def)
  ultimately show ?thesis using c(1) by auto
qed

text \<open>Of 101 pushes into a fresh context the drain returns the first 100.\<close>

theorem drain_returns_first_100_in_order_witness:
  "lockfree_queue (test_context 5) = [] \<and> history_ok (test_context 5) \<and>
   (\<exists>ctx'. get_new_chunks (foldl push_chunk (test_context 5) (replicate 101 (test_chunk 1000000))) =
             Some (replicate 100 (test_chunk 1000000), ctx') \<and>
          get_new_chunks ctx' = Some ([], ctx'))"
  using drain_returns_first_100_in_order
          [of "test_context 5" "replicate 101 (test_chunk 1000000)"]
  by (simp add: test_context_def AudioStreamContext_init_def history_ok_def)

section \<open>The history buffer: range query\<close>

lemma drop_step: "i < length xs \<Longrightarrow> drop i xs = xs ! i # drop (Suc i) xs"
  by (simp add: Cons_nth_drop_Suc)

lemma get_chunks_from_timestamp_loop_filter:
  "length (history_buffer ctx) = history_capacity ctx \<Longrightarrow>
   get_chunks_from_timestamp_loop ctx s e i result =
     Some (result @
           filter (\<lambda>c. start_timestamp_ns c \<noteq> 0 \<and> sint s \<le> sint (start_timestamp_ns c) \<and>
                        sint (start_timestamp_ns c) < sint e)
             (drop i (history_buffer ctx)))"
proof (induction ctx s e i result rule: get_chunks_from_timestamp_loop.induct)
  case (1 ctx s e i result)
  note len = "1.prems"
  show ?case
  proof (cases "i < history_capacity ctx")
    case True
    with len have at: "vec_at (history_buffer ctx) i = Some (history_buffer ctx ! i)"
      by (simp add: vec_at_def)
    from True len have dr:
      "drop i (history_buffer ctx) = history_buffer ctx ! i # drop (Suc i) (history_buffer ctx)"
      by (simp add: drop_step)
    note IH = "1.IH"(1)[OF True at _ len] "1.IH"(2)[OF True at _ _ len]
              "1.IH"(3)[OF True at _ _ len]
    show ?thesis
      by (subst get_chunks_from_timestamp_loop.simps) (use True at IH in \<open>auto simp: dr\<close>)
  next
    case False
    with len show ?thesis
      by (subst get_chunks_from_timestamp_loop.simps) simp
  qed
qed

text \<open>
  C2: \<open>get_chunks_from_timestamp\<close> returns, in the order of the slots, exactly the
  chunks of the history buffer whose start timestamp is not the sentinel 0 and lies in
  \<open>[startNs, endNs)\<close>.
\<close>

theorem get_chunks_from_timestamp_filters:
  assumes "length (history_buffer ctx) = history_capacity ctx"
  shows "get_chunks_from_timestamp ctx startNs endNs =
           Some (filter (\<lambda>c. start_timestamp_ns c \<noteq> 0 \<and>
                              sint startNs \<le> sint (start_timestamp_ns c) \<and>
                              sint (start_timestamp_ns c) < sint endNs)
                   (history_buffer ctx))"
  using get_chunks_from_timestamp_loop_filter[OF assms, of startNs endNs 0 "[]"]
  by (simp add: get_chunks_from_timestamp_def)

text \<open>Between 1.5 s and 2.5 s the history of 1 s, 2 s and 3 s holds the chunk of 2 s.\<close>

theorem get_chunks_from_timestamp_filters_witness:
  "length (history_buffer history_123) = history_capacity history_123 \<and>
   get_chunks_from_timestamp history_123 1500000000 2500000000 = Some [test_chunk 2000000000]"
  using get_chunks_from_timestamp_filters[of history_123 1500000000 2500000000]
  by (simp add: history_123_def test_context_def AudioStreamContext_init_def test_chunk_def
        empty_chunk_def)

section \<open>The history buffer: available range\<close>

lemma get_available_time_range_loop_fold:
  "length (history_buffer ctx) = history_capacity ctx \<Longrightarrow>
   get_available_time_range_loop ctx i oldest newest =
     Some (foldl std_min oldest
             (map start_timestamp_ns (non_empty_slots (drop i (history_buffer ctx)))),
           foldl std_max newest
             (map end_timestamp_ns (non_empty_slots (drop i (history_buffer ctx)))))"
proof (induction ctx i oldest newest rule: get_available_time_range_loop.induct)
  case (1 ctx i oldest newest)
  show ?case
  proof (cases "i < history_capacity ctx")
    case True
    with "1.prems" have at: "vec_at (history_buffer ctx) i = Some (history_buffer ctx ! i)"
      by (simp add: vec_at_def)
    from True "1.prems" have dr:
      "drop i (history_buffer ctx) = history_buffer ctx ! i # drop (Suc i) (history_buffer ctx)"
      by (simp add: drop_step)
    show ?thesis
      using True at "1.IH"(1)[OF True at] "1.IH"(2)[OF True at] "1.prems"
      by (subst get_available_time_range_loop.simps) (auto simp: dr non_empty_slots_def)
  next
    case False
    with "1.prems" show ?thesis
      by (subst get_available_time_range_loop.simps) (simp add: non_empty_slots_def)
  qed
qed

lemma sint_foldl_std_min:
  "sint (foldl std_min a xs) = Min (insert (sint a) (sint ` set xs))"
proof (induction xs arbitrary: a)
  case Nil
  show ?case by simp
next
  case (Cons x xs)
  have "Min (insert (sint (std_min a x)) (sint ` set xs)) =
        Min (insert (sint a) (insert (sint x) (sint ` set xs)))"
    by (cases "sint ` set xs = {}") (auto simp: std_min_def min_def)
  then show ?case by (simp add: Cons.IH)
qed

lemma sint_foldl_std_max:
  "sint (foldl std_max a xs) = Max (insert (sint a) (sint ` set xs))"
proof (induction xs arbitrary: a)
  case Nil
  show ?case by simp
next
  case (Cons x xs)
  have "Max (insert (sint (std_max a x)) (sint ` set xs)) =
        Max (insert (sint a) (insert (sint x) (sint ` set xs)))"
    by (cases "sint ` set xs = {}") (auto simp: std_max_def max_def)
  then show ?case by (simp add: Cons.IH)
qed

lemma sint_le_INT64_MAX: "sint (x :: int64) \<le> sint INT64_MAX"
  using sint_lt[of x] by (simp add: INT64_MAX_def)

lemma sint_INT64_MAX_iff: "sint (x :: int64) = sint INT64_MAX \<longleftrightarrow> x = INT64_MAX"
  by (auto simp: signed_word_eqI)

lemma std_min_MAX: "std_min a x = INT64_MAX \<longleftrightarrow> a = INT64_MAX \<and> x = INT64_MAX"
  using sint_le_INT64_MAX[of a] sint_le_INT64_MAX[of x]
        sint_INT64_MAX_iff[of a] sint_INT64_MAX_iff[of x]
  by (auto simp: std_min_def)

lemma foldl_std_min_MAX:
  "foldl std_min a xs = INT64_MAX \<longleftrightarrow> a = INT64_MAX \<and> (\<forall>x\<in>set xs. x = INT64_MAX)"
  by (induction xs arbitrary: a) (auto simp: std_min_MAX)

lemma Min_insert_above:
  fixes a :: int
  assumes "finite S" and "x \<in> S" and "x \<le> a"
  shows "Min (insert a S) = Min S"
proof -
  from assms(2) have ne: "S \<noteq> {}" by blast
  have "Min S \<le> x" using assms(1,2) by (rule Min_le)
  with assms(3) have "Min S \<le> a" by simp
  moreover have "Min (insert a S) = min a (Min S)" using assms(1) ne by (rule Min_insert)
  ultimately show ?thesis by (simp add: min_def)
qed

text \<open>
  What \<open>get_available_time_range\<close> returns on every history: (0, 0) when no non-empty
  slot starts before \<open>INT64_MAX\<close>, the value \<open>oldest\<close> starts from; otherwise the
  least start of the non-empty slots and the greatest of their ends and of 0, the value
  \<open>newest\<close> starts from.
\<close>

lemma get_available_time_range_exact:
  assumes "length (history_buffer ctx) = history_capacity ctx"
  shows "\<exists>lo hi. get_available_time_range ctx = Some (lo, hi) \<and>
     (if \<forall>c\<in>set (non_empty_slots (history_buffer ctx)). start_timestamp_ns c = INT64_MAX
      then lo = 0 \<and> hi = 0
      else sint lo = Min (sint ` start_timestamp_ns ` set (non_empty_slots (history_buffer ctx))) \<and>
           sint hi =
             max 0 (Max (sint ` end_timestamp_ns ` set (non_empty_slots (history_buffer ctx)))))"
proof -
  let ?ne = "non_empty_slots (history_buffer ctx)"
  let ?lo = "foldl std_min INT64_MAX (map start_timestamp_ns ?ne)"
  let ?hi = "foldl std_max 0 (map end_timestamp_ns ?ne)"
  have loop: "get_available_time_range_loop ctx 0 INT64_MAX 0 = Some (?lo, ?hi)"
    using get_available_time_range_loop_fold[OF assms, of 0 INT64_MAX 0] by simp
  show ?thesis
  proof (cases "\<forall>c\<in>set ?ne. start_timestamp_ns c = INT64_MAX")
    case True
    then have "?lo = INT64_MAX" by (simp add: foldl_std_min_MAX)
    with loop True show ?thesis by (simp add: get_available_time_range_def)
  next
    case False
    then have ne: "?lo \<noteq> INT64_MAX" by (simp add: foldl_std_min_MAX)
    from False obtain c where c: "c \<in> set ?ne" "start_timestamp_ns c \<noteq> INT64_MAX" by blast
    then have lt: "sint (start_timestamp_ns c) < sint INT64_MAX"
      using sint_le_INT64_MAX[of "start_timestamp_ns c"]
            sint_INT64_MAX_iff[of "start_timestamp_ns c"] by simp
    have "Min (insert (sint INT64_MAX) (sint ` start_timestamp_ns ` set ?ne)) =
          Min (sint ` start_timestamp_ns ` set ?ne)"
    proof (rule Min_insert_above)
      show "finite (sint ` start_timestamp_ns ` set ?ne)" by simp
      show "sint (start_timestamp_ns c) \<in> sint ` start_timestamp_ns ` set ?ne"
        using c(1) by blast
      show "sint (start_timestamp_ns c) \<le> sint INT64_MAX" using lt by simp
    qed
    then have lo: "sint ?lo = Min (sint ` start_timestamp_ns ` set ?ne)"
      by (simp add: sint_foldl_std_min image_image)
    have fin2: "finite (sint ` end_timestamp_ns ` set ?ne)"
               "sint ` end_timestamp_ns ` set ?ne \<noteq> {}"
      using c by auto
    have hi: "sint ?hi = max 0 (Max (sint ` end_timestamp_ns ` set ?ne))"
      using fin2 by (simp add: sint_foldl_std_max image_image)
    show ?thesis by (simp add: get_available_time_range_def loop ne lo hi False)
  qed
qed

text \<open>
  On a history whose non-empty slots end at or after the epoch and do not start at
  \<open>INT64_MAX\<close>, as every chunk stamped from the wall clock does, the range is the one
  the specification words: (0, 0) when every slot is empty, otherwise the least start
  and the greatest end.
\<close>

lemma get_available_time_range_after_epoch:
  assumes len: "length (history_buffer ctx) = history_capacity ctx"
    and stamped: "\<forall>c\<in>set (non_empty_slots (history_buffer ctx)).
                    0 \<le> sint (end_timestamp_ns c) \<and> start_timestamp_ns c \<noteq> INT64_MAX"
  shows "\<exists>lo hi. get_available_time_range ctx = Some (lo, hi) \<and>
                 (sint lo, sint hi) = spec_available_range (history_buffer ctx)"
proof -
  let ?ne = "non_empty_slots (history_buffer ctx)"
  from get_available_time_range_exact[OF len] obtain lo hi where
    r: "get_available_time_range ctx = Some (lo, hi)" and
    v: "if \<forall>c\<in>set ?ne. start_timestamp_ns c = INT64_MAX then lo = 0 \<and> hi = 0
        else sint lo = Min (sint ` start_timestamp_ns ` set ?ne) \<and>
             sint hi = max 0 (Max (sint ` end_timestamp_ns ` set ?ne))"
    by blast
  show ?thesis
  proof (cases "?ne = []")
    case True
    with v have "lo = 0 \<and> hi = 0" by simp
    with r True show ?thesis by (simp add: spec_available_range_def)
  next
    case False
    then obtain c where c: "c \<in> set ?ne" by (cases ?ne) auto
    with stamped have c': "0 \<le> sint (end_timestamp_ns c)" "start_timestamp_ns c \<noteq> INT64_MAX"
      by auto
    from c c'(2) have "\<not> (\<forall>c\<in>set ?ne. start_timestamp_ns c = INT64_MAX)" by blast
    with v have lo: "sint lo = Min (sint ` start_timestamp_ns ` set ?ne)"
      and hi: "sint hi = max 0 (Max (sint ` end_timestamp_ns ` set ?ne))" by simp_all
    have "sint (end_timestamp_ns c) \<le> Max (sint ` end_timestamp_ns ` set ?ne)"
      using c by (intro Max_ge) auto
    with c'(1) have "max 0 (Max (sint ` end_timestamp_ns ` set ?ne)) =
                     Max (sint ` end_timestamp_ns ` set ?ne)" by simp
    with r lo hi False show ?thesis by (simp add: spec_available_range_def)
  qed
qed

text \<open>The range of the history of 1 s, 2 s and 3 s is (1 s, 3.1 s), as in the tests.\<close>

lemma get_available_time_range_history_123:
  "\<exists>lo hi. get_available_time_range history_123 = Some (lo, hi) \<and>
           sint lo = 1000000000 \<and> sint hi = 3100000000"
  using get_available_time_range_exact[of history_123]
  by (simp add: history_123_def test_context_def AudioStreamContext_init_def test_chunk_def
        empty_chunk_def non_empty_slots_def INT64_MAX_def)


section \<open>The callback when idle\<close>

text \<open>
  C5: with a null input buffer, or with recording disabled, \<open>AudioCallback\<close> returns
  \<open>paContinue\<close> and the stream context is the one it was given, in every field.
\<close>

theorem AudioCallback_idle_unchanged:
  "inputBuffer = None \<or> \<not> is_recording ctx \<Longrightarrow>
   AudioCallback D ctx inputBuffer framesPerBuffer adc_time now = Some (paContinue, ctx)"
  by (auto simp: AudioCallback_def split: option.splits)

theorem AudioCallback_idle_unchanged_witness:
  "(Some [1, 2, 3] = (None :: int16 list option) \<or>
      \<not> is_recording ((test_context 5)\<lparr>is_recording := False\<rparr>)) \<and>
   AudioCallback no_double_ops ((test_context 5)\<lparr>is_recording := False\<rparr>) (Some [1, 2, 3]) 3 () 42 =
     Some (paContinue, (test_context 5)\<lparr>is_recording := False\<rparr>)"
  using AudioCallback_idle_unchanged
          [of "Some [1, 2, 3]" "(test_context 5)\<lparr>is_recording := False\<rparr>" no_double_ops 3 "()" 42]
  by simp

section \<open>The timestamp of a sample\<close>

lemma rel_step:
  fixes x y z u k B :: real
  assumes "\<bar>x - y\<bar> \<le> u * \<bar>y\<bar>" and "\<bar>y - z\<bar> \<le> k * B" and "\<bar>z\<bar> \<le> B" and "0 \<le> u"
  shows "\<bar>x - z\<bar> \<le> (k + u * (1 + k)) * B"
proof -
  have "\<bar>y\<bar> \<le> \<bar>z\<bar> + \<bar>y - z\<bar>" by simp
  with assms(2,3) have "\<bar>y\<bar> \<le> (1 + k) * B" by (simp add: algebra_simps)
  with assms(4) have "u * \<bar>y\<bar> \<le> u * ((1 + k) * B)" by (rule mult_left_mono[rotated])
  moreover have "\<bar>x - z\<bar> \<le> \<bar>x - y\<bar> + \<bar>y - z\<bar>" by simp
  ultimately have "\<bar>x - z\<bar> \<le> u * ((1 + k) * B) + k * B" using assms(1,2) by linarith
  then show ?thesis by (simp add: algebra_simps)
qed

lemma sint_word_of_int_64:
  "- (2 ^ 63) \<le> n \<Longrightarrow> n < 2 ^ 63 \<Longrightarrow> sint (word_of_int n :: int64) = n"
  by (simp add: sint_sbintrunc' signed_take_bit_int_eq_self)

lemma le_double_huge: "x \<le> 2 ^ 62 \<Longrightarrow> x \<le> double_huge"
proof -
  have "(2 :: real) ^ 62 \<le> 2 ^ 1000" by (rule power_increasing) simp_all
  then show "x \<le> 2 ^ 62 \<Longrightarrow> x \<le> double_huge" by (simp add: double_huge_def)
qed

lemma in_normal_rangeI:
  assumes "x = 0 \<or> 1 / 2 ^ 54 \<le> \<bar>x\<bar>" and "\<bar>x\<bar> \<le> 2 ^ 62"
  shows "in_normal_range x"
proof -
  have "(2 :: real) ^ 54 \<le> 2 ^ 1000" by (rule power_increasing) simp_all
  then have "1 / double_huge \<le> 1 / (2 :: real) ^ 54"
    unfolding double_huge_def by (intro divide_left_mono) simp_all
  with assms le_double_huge[OF assms(2)] show ?thesis
    unfolding in_normal_range_def by linarith
qed

lemma timestamp_rounding:
  fixes val :: "'d \<Rightarrow> real"
  assumes dm: "double_model D val"
    and R: "0 < sample_rate_hz (info ctx)" "sample_rate_hz (info ctx) \<le> 2 ^ 53"
    and i: "int sample_index \<le> 2 ^ 53"
    and fits: "(\<bar>val E\<bar> + real sample_index / real_of_int (sample_rate_hz (info ctx))) * 10 ^ 9 \<le> 2 ^ 61"
    and T0: "\<bar>sint (stream_start_time ctx)\<bar> \<le> 2 ^ 62"
  shows "\<exists>t. calculate_sample_timestamp D ctx E sample_index = Some t \<and>
           \<bar>real_of_int (sint t) -
              (real_of_int (sint (stream_start_time ctx)) +
               (val E + real sample_index / real_of_int (sample_rate_hz (info ctx))) * 10 ^ 9)\<bar>
           \<le> 1 + 5 * (\<bar>val E\<bar> + real sample_index / real_of_int (sample_rate_hz (info ctx))) * 10 ^ 9 / 2 ^ 53"
proof -
  define u where "u = unit_roundoff"
  define r where "r = real_of_int (sample_rate_hz (info ctx))"
  define a where "a = real sample_index / r"
  define A where "A = \<bar>val E\<bar> + a"
  define sps where "sps = d_div D (d_of_int D 1) (d_of_int D (sample_rate_hz (info ctx)))"
  define prod where "prod = d_mul D (d_of_int D (int sample_index)) sps"
  define sm where "sm = d_add D E prod"
  have u: "0 \<le> u" "u = 1 / 2 ^ 53" by (simp_all add: u_def unit_roundoff_def)
  have "1 \<le> sample_rate_hz (info ctx)" using R(1) by simp
  then have r1: "1 \<le> r" unfolding r_def by linarith
  then have rpos: "0 < r" by simp
  have "real_of_int (sample_rate_hz (info ctx)) \<le> real_of_int (2 ^ 53)"
    using R(2) by (simp only: of_int_le_iff)
  then have r53: "r \<le> 2 ^ 53" by (simp add: r_def)
  have "real_of_int (int sample_index) \<le> real_of_int (2 ^ 53)"
    using i by (simp only: of_int_le_iff)
  then have i53: "real sample_index \<le> 2 ^ 53" by simp
  have a0: "0 \<le> a" using rpos by (simp add: a_def)
  have A0: "0 \<le> A" "a \<le> A" "\<bar>val E\<bar> \<le> A" using a0 by (simp_all add: A_def)
  have fitsA: "A * 10 ^ 9 \<le> 2 ^ 61" using fits by (simp add: A_def a_def r_def)
  have "A * 1 \<le> A * 10 ^ 9" using A0(1) by (intro mult_left_mono) simp_all
  with fitsA have A61: "A \<le> 2 ^ 61" by simp
  from dm have
    conv: "\<And>n. \<bar>n\<bar> \<le> 2 ^ 53 \<Longrightarrow> val (d_of_int D n) = of_int n" and
    add: "\<And>x y. \<bar>val x\<bar> \<le> double_huge \<Longrightarrow> \<bar>val y\<bar> \<le> double_huge \<Longrightarrow>
            \<bar>val (d_add D x y) - (val x + val y)\<bar> \<le> u * \<bar>val x + val y\<bar>" and
    mul: "\<And>x y. \<bar>val x\<bar> \<le> double_huge \<Longrightarrow> \<bar>val y\<bar> \<le> double_huge \<Longrightarrow>
            in_normal_range (val x * val y) \<Longrightarrow>
            \<bar>val (d_mul D x y) - val x * val y\<bar> \<le> u * \<bar>val x * val y\<bar>" and
    dv: "\<And>x y. \<bar>val x\<bar> \<le> double_huge \<Longrightarrow> \<bar>val y\<bar> \<le> double_huge \<Longrightarrow> val y \<noteq> 0 \<Longrightarrow>
            in_normal_range (val x / val y) \<Longrightarrow>
            \<bar>val (d_div D x y) - val x / val y\<bar> \<le> u * \<bar>val x / val y\<bar>" and
    ns: "\<And>x. \<bar>val x\<bar> * 10 ^ 9 \<le> 2 ^ 62 \<Longrightarrow>
           \<exists>t. d_to_ns D x = Some t \<and> \<bar>of_int (sint t) - val x * 10 ^ 9\<bar> \<le> 1 + u * \<bar>val x * 10 ^ 9\<bar>"
    by (auto simp: double_model_def u_def)
  have one: "val (d_of_int D 1) = 1" using conv[of 1] by simp
  have vr: "val (d_of_int D (sample_rate_hz (info ctx))) = r"
    using conv[of "sample_rate_hz (info ctx)"] R by (simp add: r_def)
  have vi: "val (d_of_int D (int sample_index)) = real sample_index"
    using conv[of "int sample_index"] i by simp
  \<comment> \<open>seconds per sample\<close>
  have inv_lo: "1 / 2 ^ 53 \<le> 1 / r" using r53 rpos by (intro divide_left_mono) simp_all
  have inv_hi: "1 / r \<le> 1" using r1 by simp
  have q: "\<bar>val sps - 1 / r\<bar> \<le> u * (1 / r)"
  proof -
    have "\<bar>val (d_div D (d_of_int D 1) (d_of_int D (sample_rate_hz (info ctx)))) -
            val (d_of_int D 1) / val (d_of_int D (sample_rate_hz (info ctx)))\<bar>
          \<le> u * \<bar>val (d_of_int D 1) / val (d_of_int D (sample_rate_hz (info ctx)))\<bar>"
    proof (rule dv)
      show "\<bar>val (d_of_int D 1)\<bar> \<le> double_huge" unfolding one by (rule le_double_huge) simp
      show "\<bar>val (d_of_int D (sample_rate_hz (info ctx)))\<bar> \<le> double_huge"
        unfolding vr using r53 rpos by (intro le_double_huge) simp
      show "val (d_of_int D (sample_rate_hz (info ctx))) \<noteq> 0" unfolding vr using rpos by simp
      show "in_normal_range (val (d_of_int D 1) / val (d_of_int D (sample_rate_hz (info ctx))))"
        unfolding one vr
      proof (rule in_normal_rangeI)
        have ar: "\<bar>1 / r\<bar> = 1 / r" using rpos by simp
        have "1 / 2 ^ 54 \<le> (1 :: real) / 2 ^ 53" by simp
        with inv_lo show "1 / r = 0 \<or> 1 / 2 ^ 54 \<le> \<bar>1 / r\<bar>" unfolding ar by linarith
        from inv_hi show "\<bar>1 / r\<bar> \<le> 2 ^ 62" unfolding ar by (rule order_trans) simp
      qed
    qed
    then show ?thesis using rpos by (simp add: sps_def one vr)
  qed
  have "u * (1 / r) \<le> 1 / 2 * (1 / r)" using rpos by (intro mult_right_mono) (simp_all add: u(2))
  with q have sps_lo: "1 / 2 * (1 / r) \<le> val sps" and sps_hi: "val sps \<le> 2"
    using inv_hi by (simp_all add: abs_le_iff)
  have sps54: "1 / 2 ^ 54 \<le> val sps" using sps_lo inv_lo by simp
  \<comment> \<open>index times seconds per sample\<close>
  have "real sample_index * val sps - a = real sample_index * (val sps - 1 / r)"
    by (simp add: a_def algebra_simps)
  then have "\<bar>real sample_index * val sps - a\<bar> = real sample_index * \<bar>val sps - 1 / r\<bar>"
    by (simp add: abs_mult)
  also have "\<dots> \<le> real sample_index * (u * (1 / r))"
    using q by (intro mult_left_mono) simp_all
  finally have y2: "\<bar>real sample_index * val sps - a\<bar> \<le> u * a"
    by (simp add: a_def mult.commute)
  have pm: "\<bar>val prod - real sample_index * val sps\<bar> \<le> u * \<bar>real sample_index * val sps\<bar>"
  proof -
    have "(0 :: real) \<le> 1 / 2 ^ 54" by simp
    then have sps0: "0 \<le> val sps" using sps54 by (rule order_trans)
    then have nn: "0 \<le> real sample_index * val sps" by simp
    have rng: "in_normal_range (real sample_index * val sps)"
    proof (rule in_normal_rangeI)
      show "real sample_index * val sps = 0 \<or> 1 / 2 ^ 54 \<le> \<bar>real sample_index * val sps\<bar>"
      proof (cases "sample_index = 0")
        case True
        then show ?thesis by simp
      next
        case False
        then have "1 \<le> real sample_index" by simp
        then have "1 * val sps \<le> real sample_index * val sps"
          using sps0 by (rule mult_right_mono)
        with sps54 have "1 / 2 ^ 54 \<le> real sample_index * val sps" by linarith
        with nn show ?thesis by (simp only: abs_of_nonneg simp_thms)
      qed
      have "real sample_index * val sps \<le> 2 ^ 53 * 2"
        using i53 sps_hi sps0 by (intro mult_mono) simp_all
      with nn show "\<bar>real sample_index * val sps\<bar> \<le> 2 ^ 62" by simp
    qed
    have "\<bar>val (d_mul D (d_of_int D (int sample_index)) sps) -
            val (d_of_int D (int sample_index)) * val sps\<bar>
          \<le> u * \<bar>val (d_of_int D (int sample_index)) * val sps\<bar>"
    proof (rule mul)
      show "\<bar>val (d_of_int D (int sample_index))\<bar> \<le> double_huge"
        unfolding vi using i53 by (intro le_double_huge) simp
      show "\<bar>val sps\<bar> \<le> double_huge" using sps_hi sps0 by (intro le_double_huge) simp
      show "in_normal_range (val (d_of_int D (int sample_index)) * val sps)"
        unfolding vi by (rule rng)
    qed
    then show ?thesis by (simp add: prod_def vi)
  qed
  have p: "\<bar>val prod - a\<bar> \<le> (u + u * (1 + u)) * a"
  proof (rule rel_step)
    show "\<bar>val prod - real sample_index * val sps\<bar> \<le> u * \<bar>real sample_index * val sps\<bar>"
      by (rule pm)
    show "\<bar>real sample_index * val sps - a\<bar> \<le> u * a" by (rule y2)
    show "\<bar>a\<bar> \<le> a" using a0 by simp
    show "0 \<le> u" by (rule u)
  qed
  define k2 where "k2 = u + u * (1 + u)"
  have k2: "0 \<le> k2" "k2 \<le> 1" using u(1) by (simp_all add: k2_def u(2))
  \<comment> \<open>the sum\<close>
  have "(u + u * (1 + u)) * a \<le> k2 * A"
    unfolding k2_def[symmetric] using k2 A0 by (intro mult_left_mono) simp_all
  with p have p': "\<bar>(val E + val prod) - (val E + a)\<bar> \<le> k2 * A" by simp
  have "k2 * A \<le> 1 * A" using k2 A0 by (intro mult_right_mono) simp_all
  with p' have "\<bar>val prod - a\<bar> \<le> A" by simp
  with A0 a0 have prodA: "\<bar>val prod\<bar> \<le> 2 * A" by linarith
  have zE: "\<bar>val E + a\<bar> \<le> A" unfolding A_def using a0 by linarith
  define k3 where "k3 = k2 + u * (1 + k2)"
  have k3: "0 \<le> k3" using u k2 by (simp add: k3_def)
  have sa: "\<bar>val sm - (val E + val prod)\<bar> \<le> u * \<bar>val E + val prod\<bar>"
  proof -
    have "\<bar>val (d_add D E prod) - (val E + val prod)\<bar> \<le> u * \<bar>val E + val prod\<bar>"
    proof (rule add)
      show "\<bar>val E\<bar> \<le> double_huge" using A0(3) A61 by (intro le_double_huge) simp
      show "\<bar>val prod\<bar> \<le> double_huge" using prodA A61 by (intro le_double_huge) simp
    qed
    then show ?thesis by (simp add: sm_def)
  qed
  have s: "\<bar>val sm - (val E + a)\<bar> \<le> k3 * A"
    unfolding k3_def
  proof (rule rel_step)
    show "\<bar>val sm - (val E + val prod)\<bar> \<le> u * \<bar>val E + val prod\<bar>" by (rule sa)
    show "\<bar>(val E + val prod) - (val E + a)\<bar> \<le> k2 * A" by (rule p')
    show "\<bar>val E + a\<bar> \<le> A" by (rule zE)
    show "0 \<le> u" by (rule u)
  qed
  have k3small: "k3 \<le> 1 / 2 ^ 50" "k3 + u * (1 + k3) \<le> 5 / 2 ^ 53"
    by (simp_all add: k3_def k2_def u(2) field_simps)
  have "\<bar>val sm\<bar> \<le> \<bar>val E + a\<bar> + \<bar>val sm - (val E + a)\<bar>" by simp
  with s zE have smA: "\<bar>val sm\<bar> \<le> (1 + k3) * A" by (simp add: algebra_simps)
  have "(1 + k3) * A \<le> 2 * A" using k3small(1) A0 by (intro mult_right_mono) simp_all
  with smA have "\<bar>val sm\<bar> * 10 ^ 9 \<le> 2 * A * 10 ^ 9" by simp
  with fitsA have "\<bar>val sm\<bar> * 10 ^ 9 \<le> 2 ^ 62" by simp
  from ns[OF this] obtain dur where
    dur: "d_to_ns D sm = Some dur" and
    durerr: "\<bar>of_int (sint dur) - val sm * 10 ^ 9\<bar> \<le> 1 + u * \<bar>val sm * 10 ^ 9\<bar>" by blast
  \<comment> \<open>nanoseconds\<close>
  have e1: "\<bar>val sm * 10 ^ 9 - (val E + a) * 10 ^ 9\<bar> \<le> k3 * (A * 10 ^ 9)"
  proof -
    have "val sm * 10 ^ 9 - (val E + a) * 10 ^ 9 = (val sm - (val E + a)) * 10 ^ 9"
      by (simp add: algebra_simps)
    then have "\<bar>val sm * 10 ^ 9 - (val E + a) * 10 ^ 9\<bar> = \<bar>val sm - (val E + a)\<bar> * 10 ^ 9"
      by (simp only: abs_mult) simp
    with s show ?thesis by simp
  qed
  have e0: "\<bar>(val E + a) * 10 ^ 9\<bar> \<le> A * 10 ^ 9"
    using zE by (simp add: abs_mult)
  have "\<bar>val sm * 10 ^ 9\<bar> \<le> \<bar>(val E + a) * 10 ^ 9\<bar> + \<bar>val sm * 10 ^ 9 - (val E + a) * 10 ^ 9\<bar>"
    by simp
  with e0 e1 have "\<bar>val sm * 10 ^ 9\<bar> \<le> (1 + k3) * (A * 10 ^ 9)" by (simp add: algebra_simps)
  with u(1) have "u * \<bar>val sm * 10 ^ 9\<bar> \<le> u * ((1 + k3) * (A * 10 ^ 9))"
    by (rule mult_left_mono[rotated])
  moreover have "\<bar>of_int (sint dur) - (val E + a) * 10 ^ 9\<bar> \<le>
      \<bar>of_int (sint dur) - val sm * 10 ^ 9\<bar> + \<bar>val sm * 10 ^ 9 - (val E + a) * 10 ^ 9\<bar>"
    by simp
  ultimately have "\<bar>of_int (sint dur) - (val E + a) * 10 ^ 9\<bar> \<le>
      1 + u * ((1 + k3) * (A * 10 ^ 9)) + k3 * (A * 10 ^ 9)"
    using durerr e1 by linarith
  also have "\<dots> = 1 + (k3 + u * (1 + k3)) * (A * 10 ^ 9)" by (simp add: algebra_simps)
  also have "\<dots> \<le> 1 + 5 / 2 ^ 53 * (A * 10 ^ 9)"
    using k3small(2) A0 by (intro add_left_mono mult_right_mono) simp_all
  finally have bound: "\<bar>of_int (sint dur) - (val E + a) * 10 ^ 9\<bar> \<le> 1 + 5 * A * 10 ^ 9 / 2 ^ 53"
    by simp
  \<comment> \<open>no overflow in the final sum\<close>
  have "5 * A * 10 ^ 9 / 2 ^ 53 \<le> 2 ^ 11" using fitsA by simp
  with bound e0 have "\<bar>real_of_int (sint dur)\<bar> \<le> 1 + 2 ^ 11 + 2 ^ 61" using fitsA by linarith
  then have "real_of_int \<bar>sint dur\<bar> \<le> real_of_int (1 + 2 ^ 11 + 2 ^ 61)" by simp
  then have "\<bar>sint dur\<bar> \<le> 1 + 2 ^ 11 + 2 ^ 61" by (simp only: of_int_le_iff)
  with T0 have "- (2 ^ 63) \<le> sint (stream_start_time ctx) + sint dur"
     "sint (stream_start_time ctx) + sint dur < 2 ^ 63" by simp_all
  then have res: "add_ns (stream_start_time ctx) dur = Some (stream_start_time ctx + dur)"
    and sres: "sint (stream_start_time ctx + dur) = sint (stream_start_time ctx) + sint dur"
    by (simp_all add: add_ns_def sint_word_ariths signed_take_bit_int_eq_self)
  have calc: "calculate_sample_timestamp D ctx E sample_index = Some (stream_start_time ctx + dur)"
    using dur res by (simp add: calculate_sample_timestamp_def Let_def sps_def[symmetric] prod_def[symmetric] sm_def[symmetric])
  have eq: "real_of_int (sint (stream_start_time ctx + dur)) -
              (real_of_int (sint (stream_start_time ctx)) + (val E + a) * 10 ^ 9) =
            real_of_int (sint dur) - (val E + a) * 10 ^ 9"
    by (simp add: sres)
  have "\<exists>t. calculate_sample_timestamp D ctx E sample_index = Some t \<and>
           \<bar>real_of_int (sint t) -
              (real_of_int (sint (stream_start_time ctx)) + (val E + a) * 10 ^ 9)\<bar>
           \<le> 1 + 5 * A * 10 ^ 9 / 2 ^ 53"
    by (intro exI conjI, rule calc, simp only: eq, rule bound)
  then show ?thesis unfolding A_def a_def r_def .
qed

lemma double_model_exact: "double_model exact_ops (\<lambda>x. x)"
proof -
  have ns: "\<exists>t. d_to_ns exact_ops x = Some t \<and>
              \<bar>of_int (sint t) - x * 10 ^ 9\<bar> \<le> 1 + unit_roundoff * \<bar>x * 10 ^ 9\<bar>"
    if fits: "\<bar>x\<bar> * 10 ^ 9 \<le> 2 ^ 62" for x :: real
  proof -
    define y where "y = x * 10 ^ 9"
    define m where "m = (if 0 \<le> x then \<lfloor>y\<rfloor> else \<lceil>y\<rceil>)"
    have ay: "\<bar>y\<bar> \<le> 2 ^ 62" using fits by (simp add: y_def abs_mult)
    have close: "\<bar>real_of_int m - y\<bar> \<le> 1" unfolding m_def by (auto; linarith)
    then have "\<bar>real_of_int m\<bar> \<le> 2 ^ 62 + 1" using ay by linarith
    then have "real_of_int \<bar>m\<bar> \<le> real_of_int (2 ^ 62 + 1)" by simp
    then have "\<bar>m\<bar> \<le> 2 ^ 62 + 1" by (simp only: of_int_le_iff)
    then have "- (2 ^ 63) \<le> m" "m < 2 ^ 63" by simp_all
    then have sm: "sint (word_of_int m :: int64) = m"
      by (rule sint_word_of_int_64)
    have d: "d_to_ns exact_ops x = Some (word_of_int m)"
      using fits by (simp add: exact_ops_def m_def y_def)
    have "0 \<le> unit_roundoff * \<bar>y\<bar>" by (simp add: unit_roundoff_def)
    with close have "\<bar>real_of_int (sint (word_of_int m :: int64)) - y\<bar> \<le> 1 + unit_roundoff * \<bar>y\<bar>"
      unfolding sm by linarith
    with d show ?thesis unfolding y_def by blast
  qed
  show ?thesis
    unfolding double_model_def
    by (intro conjI allI impI ns) (simp_all add: exact_ops_def unit_roundoff_def)
qed

text \<open>
  C3: under the rounding model of \<open>double\<close>, for a positive sample rate and an elapsed
  time that fits, \<open>calculate_sample_timestamp\<close> returns a timestamp, and it differs from
  the anchor plus \<open>E + i / R\<close> seconds, in nanoseconds, by at most one nanosecond and
  five roundings of that elapsed time. In particular at 44100 Hz, with no time elapsed,
  the sample 44100 is stamped within 1000 ns of the anchor plus one second.
\<close>

theorem calculate_sample_timestamp_within_rounding:
  fixes val :: "'d \<Rightarrow> real"
  assumes "double_model D val"
    and "0 < sample_rate_hz (info ctx)" and "sample_rate_hz (info ctx) \<le> 2 ^ 53"
    and "int sample_index \<le> 2 ^ 53"
    and "(\<bar>val E\<bar> + real sample_index / real_of_int (sample_rate_hz (info ctx))) * 10 ^ 9 \<le> 2 ^ 61"
    and "\<bar>sint (stream_start_time ctx)\<bar> \<le> 2 ^ 62"
  shows "\<exists>t. calculate_sample_timestamp D ctx E sample_index = Some t \<and>
           \<bar>real_of_int (sint t) -
              (real_of_int (sint (stream_start_time ctx)) +
               (val E + real sample_index / real_of_int (sample_rate_hz (info ctx))) * 10 ^ 9)\<bar>
           \<le> 1 + 5 * (\<bar>val E\<bar> + real sample_index / real_of_int (sample_rate_hz (info ctx))) * 10 ^ 9 / 2 ^ 53 \<and>
           (sample_rate_hz (info ctx) = 44100 \<and> sample_index = 44100 \<and> val E = 0 \<longrightarrow>
              \<bar>sint t - (sint (stream_start_time ctx) + 1000000000)\<bar> \<le> 1000)"
proof -
  from timestamp_rounding[OF assms] obtain t where
    t: "calculate_sample_timestamp D ctx E sample_index = Some t" and
    b: "\<bar>real_of_int (sint t) -
              (real_of_int (sint (stream_start_time ctx)) +
               (val E + real sample_index / real_of_int (sample_rate_hz (info ctx))) * 10 ^ 9)\<bar>
           \<le> 1 + 5 * (\<bar>val E\<bar> + real sample_index / real_of_int (sample_rate_hz (info ctx))) * 10 ^ 9 / 2 ^ 53"
    by blast
  have "\<bar>sint t - (sint (stream_start_time ctx) + 1000000000)\<bar> \<le> 1000"
    if c: "sample_rate_hz (info ctx) = 44100 \<and> sample_index = 44100 \<and> val E = 0"
  proof -
    from b c have "\<bar>real_of_int (sint t) - (real_of_int (sint (stream_start_time ctx)) + 1000000000)\<bar> \<le> 2"
      by simp
    then have "real_of_int \<bar>sint t - (sint (stream_start_time ctx) + 1000000000)\<bar> \<le> real_of_int 2"
      by simp
    then have "\<bar>sint t - (sint (stream_start_time ctx) + 1000000000)\<bar> \<le> 2"
      by (simp only: of_int_le_iff)
    then show ?thesis by simp
  qed
  with t b show ?thesis by blast
qed

text \<open>
  Exact arithmetic satisfies the rounding model; with it the sample 44100 at 44100 Hz is
  stamped one second after the anchor.
\<close>

theorem calculate_sample_timestamp_within_rounding_witness:
  "double_model exact_ops (\<lambda>x. x) \<and>
   sample_rate_hz (info anchored_context) = 44100 \<and>
   sint (stream_start_time anchored_context) = 1700000000000000000 \<and>
   (\<exists>t. calculate_sample_timestamp exact_ops anchored_context 0 44100 = Some t \<and>
        \<bar>sint t - 1700000001000000000\<bar> \<le> 1000)"
  using calculate_sample_timestamp_within_rounding
          [of exact_ops "\<lambda>x. x" anchored_context 44100 0] double_model_exact
  by (auto simp add: anchored_context_def AudioStreamContext_init_def mono_44100_def)

section \<open>The encoder: encode\<close>

lemma encode_loop_returns:
  "encode_loop lib fuel state spf output_data logged =
     Some (Returns u (state', output_data', logged')) \<Longrightarrow>
   length (buffer state') < spf \<and> enc_num_channels state' = enc_num_channels state \<and>
   map_option frame_size (encoder_ctx state') = map_option frame_size (encoder_ctx state)"
proof (induction fuel arbitrary: state output_data logged)
  case 0
  then show ?case by (auto split: if_splits)
next
  case (Suc fuel)
  show ?case
  proof (cases "spf \<le> length (buffer state)")
    case False
    with Suc.prems show ?thesis by auto
  next
    case True
    with Suc.prems obtain ectx fr where r: "encoder_ctx state = Some ectx" "frame state = Some fr"
      by (auto split: option.splits)
    with Suc.prems True obtain fr' where
      d: "deinterleave_samples (buffer state) fr (frame_size ectx) (enc_num_channels state) = Some fr'"
      by (auto split: option.splits)
    obtain ret c1 where s: "avcodec_send_frame lib (codec_state ectx) (Some fr') = (ret, c1)"
      by (cases "avcodec_send_frame lib (codec_state ectx) (Some fr')")
    from Suc.prems True r d s have ok: "\<not> ret < 0" "av_packet_alloc lib c1"
      by (auto simp: Let_def split: if_splits)
    with Suc.prems True r d s obtain ret2 c2 out2 where
      rp: "receive_packets lib fuel c1 output_data = Some (ret2, c2, out2)"
      by (auto simp: Let_def split: option.splits)
    let ?st = "state\<lparr>frame := Some fr', encoder_ctx := Some (ectx\<lparr>codec_state := c1\<rparr>),
                 buffer := drop spf (buffer state),
                 encoder_ctx := Some (ectx\<lparr>codec_state := c2\<rparr>)\<rparr>"
    let ?log = "if ret2 \<noteq> AVERROR_EAGAIN \<and> ret2 \<noteq> AVERROR_EOF
                then logged @ [Warn_MP3_encoder_error ret2] else logged"
    from Suc.prems True r d s ok rp have
      "encode_loop lib fuel ?st spf out2 ?log = Some (Returns u (state', output_data', logged'))"
      by (simp add: Let_def)
    from Suc.IH[OF this] r show ?thesis by simp
  qed
qed

text \<open>
  C6: when \<open>encode_mp3_samples\<close> returns on an initialised encoder, the accumulation
  buffer is shorter than the frame length the loop compares it with, which is the frame
  size times the channel count whenever that product is not negative; neither of the
  two has changed.
\<close>

theorem encode_leaves_less_than_frame:
  assumes "encoder_ctx state = Some ectx" and "frame state = Some fr"
    and "encode_mp3_samples lib fuel state samples output_data =
           Some (Returns () (state', output_data', logged))"
  shows "\<exists>spf. samples_per_frame (frame_size ectx) (enc_num_channels state) = Some spf \<and>
           length (buffer state') < spf \<and>
           (0 \<le> frame_size ectx * enc_num_channels state \<longrightarrow>
              int (length (buffer state')) < frame_size ectx * enc_num_channels state) \<and>
           enc_num_channels state' = enc_num_channels state \<and>
           map_option frame_size (encoder_ctx state') = Some (frame_size ectx)"
proof -
  from assms obtain spf where
    spf: "samples_per_frame (frame_size ectx) (enc_num_channels state) = Some spf" and
    loop: "encode_loop lib fuel (state\<lparr>buffer := buffer state @ samples\<rparr>) spf output_data [] =
             Some (Returns () (state', output_data', logged))"
    by (auto simp: encode_mp3_samples_def Let_def split: option.splits)
  from encode_loop_returns[OF loop] assms(1)
  have b: "length (buffer state') < spf" "enc_num_channels state' = enc_num_channels state"
          "map_option frame_size (encoder_ctx state') = Some (frame_size ectx)"
    by simp_all
  have "int spf = frame_size ectx * enc_num_channels state"
    if "0 \<le> frame_size ectx * enc_num_channels state"
    using spf that by (auto simp: samples_per_frame_def split: if_splits)
  with b spf show ?thesis by auto
qed

text \<open>
  One buffered sample and five new ones, with frames of four: one frame is encoded and
  two samples stay.
\<close>

theorem encode_leaves_less_than_frame_witness:
  "encoder_ctx (ready_state (0 :: nat, False) [1]) = Some \<lparr>frame_size = 2, codec_state = (0, False)\<rparr> \<and>
   frame (ready_state (0 :: nat, False) [1]) = Some [ [0, 0], [0, 0] ] \<and>
   encode_mp3_samples lookahead_codec 3 (ready_state (0, False) [1]) [2, 3, 4, 5, 6] [] =
     Some (Returns ()
       (\<lparr>encoder_ctx = Some \<lparr>frame_size = 2, codec_state = (1, False)\<rparr>,
         frame = Some [ [1, 3], [2, 4] ], sample_rate = 48000, enc_num_channels = 2,
         buffer = [5, 6]\<rparr>, [], [])) \<and>
   samples_per_frame 2 2 = Some 4 \<and>
   length (buffer \<lparr>encoder_ctx = Some \<lparr>frame_size = 2, codec_state = (1 :: nat, False)\<rparr>,
         frame = Some [ [1, 3], [2, 4] ], sample_rate = 48000, enc_num_channels = 2,
         buffer = [5, 6]\<rparr>) < 4"
  using encode_leaves_less_than_frame
    [where state = "ready_state (0, False) [1]"
       and ectx = "\<lparr>frame_size = 2, codec_state = (0, False)\<rparr>"
       and fr = "[ [0, 0], [0, 0] ]" and lib = lookahead_codec and fuel = 3
       and samples = "[2, 3, 4, 5, 6]" and output_data = "[]"
       and state' = "\<lparr>encoder_ctx = Some \<lparr>frame_size = 2, codec_state = (1, False)\<rparr>,
         frame = Some [ [1, 3], [2, 4] ], sample_rate = 48000, enc_num_channels = 2,
         buffer = [5, 6]\<rparr>" and output_data' = "[]" and logged = "[]"]
  by (simp add: ready_state_def encode_mp3_samples_def samples_per_frame_def lookahead_codec_def
        deinterleave_samples_def AVERROR_EAGAIN_def AVERROR_EOF_def numeral_3_eq_3 upt_rec)

text \<open>
  A successful \<open>initialize_mp3_encoder\<close> on a fresh state gives the initialised encoder
  used above.
\<close>

lemma initialize_gives_ready_state:
  "initialize_mp3_encoder (working_setup c0) uninitialized_state 48000 2 =
     Returns () (ready_state c0 [], [Info_MP3_encoder_initialized 48000 2 2])"
  by (simp add: initialize_mp3_encoder_def working_setup_def uninitialized_state_def
        ready_state_def numeral_2_eq_2)

text \<open>\<open>cleanup_mp3_encoder\<close> leaves the encoder as a fresh one, whatever it was.\<close>

lemma cleanup_gives_uninitialized_state: "cleanup_mp3_encoder state = uninitialized_state"
  by (cases state) (simp add: cleanup_mp3_encoder_def uninitialized_state_def)

text \<open>
  The guard of \<open>encode_mp3_samples\<close>: with a null codec context or a null frame it
  throws before the state or the output is touched.
\<close>

lemma encode_null_pointer_throws:
  "encoder_ctx state = None \<or> frame state = None \<Longrightarrow>
   encode_mp3_samples lib fuel state samples output_data =
     Some (Throws ''MP3 encoder not initialized'' (state, output_data, []))"
  by (auto simp: encode_mp3_samples_def split: option.splits)

text \<open>
  C7: the claim does not hold of the code after an initialisation that failed at its last
  step. \<open>initialize_mp3_encoder\<close> on a fresh state throws when \<open>av_frame_get_buffer\<close>
  fails, and has by then stored the codec context and the frame. On that state
  \<open>encode_mp3_samples\<close> passes its guard: it appends the samples to the buffer,
  submits the frame, and throws the error of a rejected frame, not the one of a missing
  initialisation.
\<close>

theorem encode_after_failed_initialize:
  "initialize_mp3_encoder no_frame_buffer_setup uninitialized_state 48000 2 =
     Throws ''Could not allocate MP3 frame buffer'' (half_initialized_state, []) \<and>
   encode_mp3_samples rejecting_codec 3 half_initialized_state [1, 2, 3, 4] [] =
     Some (Throws ''Error sending frame to MP3 encoder''
             (half_initialized_state\<lparr>buffer := [1, 2, 3, 4]\<rparr>, [], []))"
  by (simp add: initialize_mp3_encoder_def no_frame_buffer_setup_def uninitialized_state_def
        half_initialized_state_def encode_mp3_samples_def samples_per_frame_def
        deinterleave_samples_def rejecting_codec_def numeral_3_eq_3)

text \<open>
  The polling loop ends with the answer, the state and the bytes that \<open>polls\<close> gives,
  and lines logged before a run of the frame loop stay in front of what it logs.
\<close>

lemma polls_receive_packets:
  "polls lib k c = Some (r, bytes, c') \<Longrightarrow> k < fuel \<Longrightarrow>
   receive_packets lib fuel c output_data = Some (r, c', output_data @ bytes)"
proof (induction k arbitrary: c fuel output_data bytes)
  case 0
  then obtain f where "fuel = Suc f" by (cases fuel) auto
  with 0 show ?case by (auto split: prod.splits if_splits)
next
  case (Suc k)
  then obtain f where f: "fuel = Suc f" "k < f" by (cases fuel) auto
  obtain ret pkt c1 where a: "avcodec_receive_packet lib c = (ret, pkt, c1)"
    by (cases "avcodec_receive_packet lib c")
  with Suc.prems(1) obtain rest where
    z: "ret = 0" "polls lib k c1 = Some (r, rest, c')" "bytes = pkt @ rest"
    by (auto split: if_splits option.splits)
  from Suc.IH[OF z(2) f(2), of "output_data @ pkt"] a z f show ?case by simp
qed

lemma encode_loop_logged_before:
  "encode_loop lib fuel state spf output_data (w @ logged) =
     map_option (logged_before w) (encode_loop lib fuel state spf output_data logged)"
proof (induction fuel arbitrary: state output_data logged)
  case 0
  show ?case by simp
next
  case (Suc fuel)
  have *: "(if b then (w @ logged) @ [x] else w @ logged) = w @ (if b then logged @ [x] else logged)"
    for b x by simp
  show ?case
    by (simp add: Let_def Suc.IH[symmetric] * del: append_assoc split: option.splits prod.splits)
qed

text \<open>Fewer samples than one frame are buffered and nothing else happens.\<close>

lemma encode_short_input:
  assumes "encoder_ctx state = Some ectx" and "frame state = Some fr"
    and "samples_per_frame (frame_size ectx) (enc_num_channels state) = Some spf"
    and "length (buffer state @ samples) < spf"
  shows "encode_mp3_samples lib fuel state samples output_data =
           Some (Returns () (state\<lparr>buffer := buffer state @ samples\<rparr>, output_data, []))"
  using assms by (cases fuel) (simp_all add: encode_mp3_samples_def Let_def)

text \<open>
  C8, amended: on an initialised encoder that holds a full frame, what the codec answers
  decides the call as follows. A negative answer to the submission of the frame makes
  \<open>encode_mp3_samples\<close> throw, with the samples still buffered. When the frame is
  accepted and a packet can be allocated, no answer to a poll makes it fail: the
  packets the codec delivers are appended to the output, the answer \<open>r\<close> that ends
  the polling is logged unless it is EAGAIN or EOF, and the call goes on exactly as a
  call on the rest of the buffer does.
\<close>

theorem encode_first_frame:
  assumes "encoder_ctx state = Some ectx" and "frame state = Some fr"
    and "samples_per_frame (frame_size ectx) (enc_num_channels state) = Some spf"
    and "spf \<le> length (buffer state @ samples)"
    and "deinterleave_samples (buffer state @ samples) fr (frame_size ectx)
           (enc_num_channels state) = Some fr'"
    and "avcodec_send_frame lib (codec_state ectx) (Some fr') = (ret, c1)"
  shows "(ret < 0 \<longrightarrow>
           encode_mp3_samples lib (Suc fuel) state samples output_data =
             Some (Throws ''Error sending frame to MP3 encoder''
                     (state\<lparr>buffer := buffer state @ samples, frame := Some fr',
                            encoder_ctx := Some (ectx\<lparr>codec_state := c1\<rparr>)\<rparr>,
                      output_data, []))) \<and>
         (0 \<le> ret \<and> av_packet_alloc lib c1 \<and> polls lib k c1 = Some (r, bytes, c2) \<and> k < fuel \<longrightarrow>
           encode_mp3_samples lib (Suc fuel) state samples output_data =
             map_option
               (logged_before
                  (if r \<noteq> AVERROR_EAGAIN \<and> r \<noteq> AVERROR_EOF
                   then [Warn_MP3_encoder_error r] else []))
               (encode_mp3_samples lib fuel
                  (state\<lparr>frame := Some fr', buffer := drop spf (buffer state @ samples),
                         encoder_ctx := Some (ectx\<lparr>codec_state := c2\<rparr>)\<rparr>)
                  [] (output_data @ bytes)))"
proof (intro conjI impI)
  assume "ret < 0"
  with assms show "encode_mp3_samples lib (Suc fuel) state samples output_data =
             Some (Throws ''Error sending frame to MP3 encoder''
                     (state\<lparr>buffer := buffer state @ samples, frame := Some fr',
                            encoder_ctx := Some (ectx\<lparr>codec_state := c1\<rparr>)\<rparr>,
                      output_data, []))"
    by (simp add: encode_mp3_samples_def Let_def)
next
  let ?w = "if r \<noteq> AVERROR_EAGAIN \<and> r \<noteq> AVERROR_EOF then [Warn_MP3_encoder_error r] else []"
  let ?st = "state\<lparr>frame := Some fr', buffer := drop spf (buffer state @ samples),
                   encoder_ctx := Some (ectx\<lparr>codec_state := c2\<rparr>)\<rparr>"
  assume a: "0 \<le> ret \<and> av_packet_alloc lib c1 \<and> polls lib k c1 = Some (r, bytes, c2) \<and> k < fuel"
  then have "polls lib k c1 = Some (r, bytes, c2)" and "k < fuel" by simp_all
  then have rp: "receive_packets lib fuel c1 output_data = Some (r, c2, output_data @ bytes)"
    by (rule polls_receive_packets)
  have "encode_mp3_samples lib (Suc fuel) state samples output_data =
        encode_loop lib fuel ?st spf (output_data @ bytes) (?w @ [])"
    using assms a rp by (cases state) (simp add: encode_mp3_samples_def Let_def)
  also have "\<dots> = map_option (logged_before ?w) (encode_loop lib fuel ?st spf (output_data @ bytes) [])"
    by (rule encode_loop_logged_before)
  also have "encode_loop lib fuel ?st spf (output_data @ bytes) [] =
             encode_mp3_samples lib fuel ?st [] (output_data @ bytes)"
    using assms(1,2,3) by (cases state) (simp add: encode_mp3_samples_def Let_def)
  finally show "encode_mp3_samples lib (Suc fuel) state samples output_data =
             map_option (logged_before ?w) (encode_mp3_samples lib fuel ?st [] (output_data @ bytes))" .
qed

text \<open>
  A frame rejected with \<open>AVERROR(EINVAL)\<close> makes the call throw. Two frames, each
  answered with one packet and then \<open>AVERROR(EIO)\<close>, leave both packets in the
  output and both answers in the log, and the call returns with the ninth sample
  buffered.
\<close>

theorem encode_first_frame_witness:
  "encode_mp3_samples rejecting_codec (Suc 0) (ready_state () []) [1, 2, 3, 4] [] =
     Some (Throws ''Error sending frame to MP3 encoder''
             (\<lparr>encoder_ctx = Some \<lparr>frame_size = 2, codec_state = ()\<rparr>,
               frame = Some [ [1, 3], [2, 4] ], sample_rate = 48000, enc_num_channels = 2,
               buffer = [1, 2, 3, 4]\<rparr>, [], [])) \<and>
   avcodec_send_frame faulty_codec 0 (Some [ [1, 3], [2, 4] ]) = (0, 1) \<and>
   av_packet_alloc faulty_codec 1 \<and>
   polls faulty_codec 1 1 = Some (- 5, [255], 0) \<and>
   encode_mp3_samples faulty_codec (Suc 3) (ready_state 0 []) [1, 2, 3, 4, 5, 6, 7, 8, 9] [] =
     Some (Returns ()
             (\<lparr>encoder_ctx = Some \<lparr>frame_size = 2, codec_state = 0\<rparr>,
               frame = Some [ [5, 7], [6, 8] ], sample_rate = 48000, enc_num_channels = 2,
               buffer = [9]\<rparr>, [255, 255],
              [Warn_MP3_encoder_error (- 5), Warn_MP3_encoder_error (- 5)]))"
  using encode_first_frame
    [where state = "ready_state () []" and ectx = "\<lparr>frame_size = 2, codec_state = ()\<rparr>"
       and fr = "[ [0, 0], [0, 0] ]" and spf = 4 and samples = "[1, 2, 3, 4]"
       and fr' = "[ [1, 3], [2, 4] ]" and lib = rejecting_codec and ret = "- 22" and ?c1.0 = "()"
       and fuel = 0 and output_data = "[]"]
    encode_first_frame
    [where state = "ready_state 0 []" and ectx = "\<lparr>frame_size = 2, codec_state = 0\<rparr>"
       and fr = "[ [0, 0], [0, 0] ]" and spf = 4 and samples = "[1, 2, 3, 4, 5, 6, 7, 8, 9]"
       and fr' = "[ [1, 3], [2, 4] ]" and lib = faulty_codec and ret = 0 and ?c1.0 = 1
       and k = 1 and r = "- 5" and bytes = "[255]" and ?c2.0 = 0
       and fuel = 3 and output_data = "[]"]
  by (simp add: ready_state_def encode_mp3_samples_def samples_per_frame_def rejecting_codec_def
        faulty_codec_def deinterleave_samples_def AVERROR_EAGAIN_def AVERROR_EOF_def
        numeral_2_eq_2 numeral_3_eq_3 upt_rec)

text \<open>
  The claim as worded fails on a rejected frame: the call throws, with the samples still
  buffered. It also fails on the answer EOF to a poll, a negative code other than
  EAGAIN that is not logged.
\<close>

theorem encode_fails_on_rejected_frame_counterexample:
  "encode_mp3_samples rejecting_codec 3 (ready_state () []) [1, 2, 3, 4] [] =
     Some (Throws ''Error sending frame to MP3 encoder''
       (\<lparr>encoder_ctx = Some \<lparr>frame_size = 2, codec_state = ()\<rparr>,
         frame = Some [ [1, 3], [2, 4] ], sample_rate = 48000, enc_num_channels = 2,
         buffer = [1, 2, 3, 4]\<rparr>, [], [])) \<and>
   encode_mp3_samples (answering_codec AVERROR_EOF) 3 (ready_state () []) [1, 2, 3, 4] [] =
     Some (Returns ()
       (\<lparr>encoder_ctx = Some \<lparr>frame_size = 2, codec_state = ()\<rparr>,
         frame = Some [ [1, 3], [2, 4] ], sample_rate = 48000, enc_num_channels = 2,
         buffer = []\<rparr>, [], [])) \<and>
   AVERROR_EOF < 0 \<and> AVERROR_EOF \<noteq> AVERROR_EAGAIN"
  by (simp add: ready_state_def encode_mp3_samples_def samples_per_frame_def rejecting_codec_def
        answering_codec_def deinterleave_samples_def AVERROR_EAGAIN_def AVERROR_EOF_def
        numeral_3_eq_3 upt_rec)

section \<open>The encoder: flush\<close>

lemma flush_drain_delivers:
  "delivers lib k c = Some c' \<Longrightarrow> n + int k \<le> INT_MAX \<Longrightarrow> k < fuel \<Longrightarrow>
   flush_drain lib fuel c n = Some (Returns (n + int k) c')"
proof (induction k arbitrary: c n fuel)
  case 0
  then obtain f where "fuel = Suc f" by (cases fuel) auto
  with 0 show ?case by (auto split: prod.splits if_splits)
next
  case (Suc k)
  then obtain f where f: "fuel = Suc f" "k < f" by (cases fuel) auto
  obtain ret pkt c1 where r: "avcodec_receive_packet lib c = (ret, pkt, c1)"
    by (cases "avcodec_receive_packet lib c")
  with Suc.prems(1) have z: "ret = 0" "delivers lib k c1 = Some c'"
    by (auto split: if_splits)
  from Suc.prems(2) have "n \<noteq> INT_MAX" "(n + 1) + int k \<le> INT_MAX" by simp_all
  with Suc.IH[OF z(2) this(2) f(2)] r z f show ?case by simp
qed

text \<open>
  What \<open>flush_mp3_encoder\<close> does on an encoder with a codec context: it sends the
  end-of-stream signal and ignores the answer; when the packet can be allocated and the
  codec then holds \<open>k\<close> packets, it polls them all off, returns \<open>k\<close> and logs the
  count when it is positive. Of the state it changes the codec session only: samples
  left in the accumulation buffer are counted in the log and stay where they are.
\<close>

lemma flush_mp3_encoder_drains:
  assumes "encoder_ctx state = Some ectx"
    and "avcodec_send_frame lib (codec_state ectx) None = (ret, c1)"
    and "av_packet_alloc lib c1"
    and "delivers lib k c1 = Some c2"
    and "int k \<le> INT_MAX"
    and "k < fuel"
    and "buffer state = [] \<or> enc_num_channels state mod 2 ^ 64 \<noteq> 0"
  shows "flush_mp3_encoder lib fuel state =
     Some (Returns (int k)
       (state\<lparr>encoder_ctx := Some (ectx\<lparr>codec_state := c2\<rparr>)\<rparr>,
        (if 0 < k then [Info_flushed_packets (int k)] else []) @
        (if buffer state \<noteq> []
         then [Info_discarded_samples
                 (length (buffer state) div nat (enc_num_channels state mod 2 ^ 64))]
         else [])))"
proof -
  have "flush_drain lib fuel c1 0 = Some (Returns (int k) c2)"
    using flush_drain_delivers[OF assms(4), of 0 fuel] assms(5,6) by simp
  with assms(1,2,3,7) show ?thesis
    by (auto simp: flush_mp3_encoder_def Let_def)
qed

text \<open>The guard of \<open>flush_mp3_encoder\<close>: with a null codec context it returns 0 at once.\<close>

lemma flush_null_context_returns_0:
  "encoder_ctx state = None \<Longrightarrow>
   flush_mp3_encoder lib fuel state = Some (Returns 0 (state, []))"
  by (simp add: flush_mp3_encoder_def)

text \<open>
  C9: the claim does not hold of the code on the samples left over. An encoder is
  initialised and given six samples, with frames of four: one frame is encoded and two
  samples stay buffered. \<open>flush_mp3_encoder\<close> then drains the one packet the codec
  held back, returns 1 and logs that one sample per channel was discarded; the two
  samples are still in the accumulation buffer of the state it leaves.
\<close>

theorem flush_reports_but_keeps_samples:
  "initialize_mp3_encoder (working_setup (0 :: nat, False)) uninitialized_state 48000 2 =
     Returns () (ready_state (0, False) [], [Info_MP3_encoder_initialized 48000 2 2]) \<and>
   encode_mp3_samples lookahead_codec 3 (ready_state (0, False) []) [1, 2, 3, 4, 5, 6] [] =
     Some (Returns ()
       (\<lparr>encoder_ctx = Some \<lparr>frame_size = 2, codec_state = (1, False)\<rparr>,
         frame = Some [ [1, 3], [2, 4] ], sample_rate = 48000, enc_num_channels = 2,
         buffer = [5, 6]\<rparr>, [], [])) \<and>
   flush_mp3_encoder lookahead_codec 3
       \<lparr>encoder_ctx = Some \<lparr>frame_size = 2, codec_state = (1, False)\<rparr>,
        frame = Some [ [1, 3], [2, 4] ], sample_rate = 48000, enc_num_channels = 2,
        buffer = [5, 6]\<rparr> =
     Some (Returns 1
       (\<lparr>encoder_ctx = Some \<lparr>frame_size = 2, codec_state = (0, True)\<rparr>,
         frame = Some [ [1, 3], [2, 4] ], sample_rate = 48000, enc_num_channels = 2,
         buffer = [5, 6]\<rparr>,
        [Info_flushed_packets 1, Info_discarded_samples 1]))"
proof -
  have two: "replicate 2 x = [x, x]" for x :: 'a
    by (simp add: numeral_2_eq_2)
  show ?thesis
    by (simp add: initialize_mp3_encoder_def working_setup_def uninitialized_state_def
          ready_state_def encode_mp3_samples_def samples_per_frame_def lookahead_codec_def
          deinterleave_samples_def flush_mp3_encoder_def INT_MAX_def AVERROR_EAGAIN_def
          AVERROR_EOF_def numeral_3_eq_3 upt_rec two)
qed

text \<open>
  C10: the claim does not hold of the code after an initialisation that failed at its
  last step. The codec context is then set, so \<open>flush_mp3_encoder\<close> passes its guard,
  signals the end of the stream and polls the codec. Once a call of
  \<open>encode_mp3_samples\<close> has left samples in the buffer of that state, whose channel
  count is still 0, the line that reports them divides by zero: the call neither
  returns 0 nor is it silent.
\<close>

theorem flush_after_failed_initialize:
  "initialize_mp3_encoder no_frame_buffer_setup uninitialized_state 48000 2 =
     Throws ''Could not allocate MP3 frame buffer'' (half_initialized_state, []) \<and>
   encode_mp3_samples rejecting_codec 3 half_initialized_state [1, 2, 3, 4] [] =
     Some (Throws ''Error sending frame to MP3 encoder''
             (half_initialized_state\<lparr>buffer := [1, 2, 3, 4]\<rparr>, [], [])) \<and>
   flush_mp3_encoder rejecting_codec 3 (half_initialized_state\<lparr>buffer := [1, 2, 3, 4]\<rparr>) =
     Some Undefined"
  by (simp add: initialize_mp3_encoder_def no_frame_buffer_setup_def uninitialized_state_def
        half_initialized_state_def encode_mp3_samples_def samples_per_frame_def
        deinterleave_samples_def rejecting_codec_def flush_mp3_encoder_def AVERROR_EAGAIN_def
        numeral_3_eq_3)

end
